theory Spec2Isabelle
  imports Main "HOL-Library.Word" "HOL-Library.Sublist" "HOL-Library.Char_ord" "HOL-Library.List_Lexorder"
begin

section \<open>Paths and strings\<close>

text \<open>
  A \<open>pathlib.Path\<close> is kept as the list of its \<open>parts\<close>; the empty list is \<open>Path(".")\<close>,
  whose \<open>parts\<close> is the empty tuple. Path equality is equality of the parts.
\<close>

type_synonym path = "string list"

text \<open>\<open>sep.join(xs)\<close> of Python.\<close>

fun join :: "string \<Rightarrow> string list \<Rightarrow> string" where
  "join sep [] = []"
| "join sep [x] = x"
| "join sep (x # y # ys) = x @ sep @ join sep (y # ys)"

definition startswith :: "string \<Rightarrow> string \<Rightarrow> bool" where
  "startswith s p = (take (length p) s = p)"

definition endswith :: "string \<Rightarrow> string \<Rightarrow> bool" where
  "endswith s p = (length p \<le> length s \<and> drop (length s - length p) s = p)"

text \<open>
  \<open>str.lower()\<close>, \<open>str.upper()\<close> and \<open>str.title()\<close>. A \<open>char\<close> is a byte, so the case
  mappings act on the ASCII letters and leave every other byte alone. (No code point outside
  ASCII lower-cases to one of the letters of \<open>".md"\<close>, \<open>".txt"\<close>, \<open>"false"\<close> or \<open>"no"\<close>.)
\<close>

definition ascii_uppercase :: string where
  "ascii_uppercase = ''ABCDEFGHIJKLMNOPQRSTUVWXYZ''"

definition ascii_lowercase :: string where
  "ascii_lowercase = ''abcdefghijklmnopqrstuvwxyz''"

definition is_upper :: "char \<Rightarrow> bool" where
  "is_upper c = (c \<in> set ascii_uppercase)"

definition is_lower :: "char \<Rightarrow> bool" where
  "is_lower c = (c \<in> set ascii_lowercase)"

definition lower_char :: "char \<Rightarrow> char" where
  "lower_char c =
     (case map_of (zip ascii_uppercase ascii_lowercase) c of Some l \<Rightarrow> l | None \<Rightarrow> c)"

definition upper_char :: "char \<Rightarrow> char" where
  "upper_char c =
     (case map_of (zip ascii_lowercase ascii_uppercase) c of Some u \<Rightarrow> u | None \<Rightarrow> c)"

definition lower :: "string \<Rightarrow> string" where
  "lower s = map lower_char s"

definition upper :: "string \<Rightarrow> string" where
  "upper s = map upper_char s"

text \<open>
  \<open>str.title()\<close>: a cased character is upper-cased when the character before it is not
  cased and lower-cased when it is. The flag is "the previous character is cased".
\<close>

fun title_from :: "bool \<Rightarrow> string \<Rightarrow> string" where
  "title_from previous_is_cased [] = []"
| "title_from previous_is_cased (c # cs) =
     (if is_lower c then (if previous_is_cased then c else upper_char c) # title_from True cs
      else if is_upper c then (if previous_is_cased then lower_char c else c) # title_from True cs
      else c # title_from False cs)"

definition title_case :: "string \<Rightarrow> string" where
  "title_case s = title_from False s"

text \<open>\<open>s.replace(old, new)\<close> for single characters.\<close>

definition replace_char :: "char \<Rightarrow> char \<Rightarrow> string \<Rightarrow> string" where
  "replace_char old new s = map (\<lambda>c. if c = old then new else c) s"

text \<open>\<open>s.rfind(c)\<close>: the index of the last occurrence of \<open>c\<close>, or \<open>-1\<close>.\<close>

definition rfind :: "string \<Rightarrow> char \<Rightarrow> int" where
  "rfind s c =
     (if c \<in> set s then int (length s) - 1 - int (length (takeWhile (\<lambda>x. x \<noteq> c) (rev s)))
      else - 1)"

text \<open>
  \<open>PurePath.suffix\<close> and \<open>PurePath.stem\<close> of a file name: the name is cut at its last dot
  unless that dot is the first or the last character.
\<close>

definition suffix_of :: "string \<Rightarrow> string" where
  "suffix_of name =
     (let i = rfind name CHR ''.''
      in if 0 < i \<and> i < int (length name) - 1 then drop (nat i) name else [])"

definition stem :: "string \<Rightarrow> string" where
  "stem name =
     (let i = rfind name CHR ''.''
      in if 0 < i \<and> i < int (length name) - 1 then take (nat i) name else name)"

text \<open>\<open>s.split(c)\<close>.\<close>

fun split_on :: "char \<Rightarrow> string \<Rightarrow> string list" where
  "split_on c [] = [[]]"
| "split_on c (x # xs) =
     (case split_on c xs of
        [] \<Rightarrow> [[]]
      | w # ws \<Rightarrow> if x = c then [] # w # ws else (x # w) # ws)"

text \<open>
  \<open>Path(s)\<close> on a POSIX string: empty segments and \<open>"."\<close> segments vanish; a leading
  slash gives the anchor \<open>"/"\<close> as first part.
\<close>

definition Path :: "string \<Rightarrow> path" where
  "Path s =
     (let segs = filter (\<lambda>seg. seg \<noteq> [] \<and> seg \<noteq> ''.'') (split_on CHR ''/'' s)
      in if startswith s ''/'' then ''/'' # segs else segs)"

text \<open>\<open>PurePath.name\<close>: the last part, or the empty string when there is none but the anchor.\<close>

definition name_of :: "path \<Rightarrow> string" where
  "name_of p = (if p = [] \<or> p = [''/''] then [] else last p)"

text \<open>
  \<open>PurePath.parents\<close>: the proper ancestors, nearest first, down to \<open>Path(".")\<close> for a
  relative path and down to the anchor for an absolute one.
\<close>

fun parents :: "path \<Rightarrow> path list" where
  "parents [] = []"
| "parents (x # xs) =
     (let p = x # xs
      in if p = [''/''] then [] else butlast p # parents (butlast p))"

section \<open>Path relativizer\<close>

definition get_relative_path_to_root :: "path \<Rightarrow> string" where
  "get_relative_path_to_root current_path =
     (if current_path = [] then ''.''
      else let depth = length current_path
           in if depth > 0 then join ''/'' (replicate depth ''..'') else ''.'')"

text \<open>
  The breadcrumb string of the source is a sequence of anchors
  \<open><a href="{path}">{label}</a>\<close> separated by a fixed span; the model keeps the
  sequence of (href, label) pairs that the f-strings render, in the order they are appended.
  The pictograms that decorate the labels, card types and printed lines of the source are
  left out throughout.
\<close>

datatype crumb = Crumb (href: string) (label: string)

definition create_breadcrumb :: "path \<Rightarrow> crumb list" where
  "create_breadcrumb current_path =
     (let path_to_root = get_relative_path_to_root current_path;
          breadcrumb = [Crumb (path_to_root @ ''/index.html'') ''Home'']
      in if current_path = [] then breadcrumb
         else let parts = current_path
              in foldl (\<lambda>breadcrumb (i, part).
                     let levels_up = length parts - i - 1;
                         path = (if levels_up > 0
                                 then join ''/'' (replicate levels_up ''..'') @ ''/index.html''
                                 else ''index.html'')
                     in breadcrumb @ [Crumb path part])
                   breadcrumb (enumerate 0 parts))"

section \<open>Reading a source file\<close>

text \<open>
  \<open>open(md_path, "r", encoding="utf-8", errors="ignore")\<close> followed by \<open>f.read()\<close>: the bytes
  of the file are decoded by the runtime's UTF-8 codec with the \<open>ignore\<close> handler and the
  line ends are normalised. The codec is not code of the repository; it is written out here
  after the table of well-formed byte sequences of the Unicode standard. A byte at which no
  well-formed sequence starts is skipped. (Skipping one byte at a time gives the same text as
  skipping a longer ill-formed run at once, since the bytes of such a run after its first are
  continuation bytes, at which no sequence starts.)
\<close>

type_synonym byte = "8 word"

text \<open>Decoded text, as the list of its code points.\<close>

type_synonym unicode = "nat list"

definition continuation :: "nat \<Rightarrow> bool" where
  "continuation b = (0x80 \<le> b \<and> b \<le> 0xBF)"

text \<open>The range of the second byte, which depends on the lead byte.\<close>

definition second_ok :: "nat \<Rightarrow> nat \<Rightarrow> bool" where
  "second_ok b0 b1 =
     (if b0 = 0xE0 then 0xA0 \<le> b1 \<and> b1 \<le> 0xBF
      else if b0 = 0xED then 0x80 \<le> b1 \<and> b1 \<le> 0x9F
      else if b0 = 0xF0 then 0x90 \<le> b1 \<and> b1 \<le> 0xBF
      else if b0 = 0xF4 then 0x80 \<le> b1 \<and> b1 \<le> 0x8F
      else continuation b1)"

text \<open>The code point of the well-formed sequence at the head of the input, and its length.\<close>

fun utf8_head :: "nat list \<Rightarrow> (nat \<times> nat) option" where
  "utf8_head [] = None"
| "utf8_head (b0 # bs) =
     (if b0 < 0x80 then Some (b0, 1)
      else if 0xC2 \<le> b0 \<and> b0 \<le> 0xDF then
        (case bs of
           b1 # _ \<Rightarrow>
             if continuation b1 then Some ((b0 - 0xC0) * 64 + (b1 - 0x80), 2) else None
         | _ \<Rightarrow> None)
      else if 0xE0 \<le> b0 \<and> b0 \<le> 0xEF then
        (case bs of
           b1 # b2 # _ \<Rightarrow>
             if second_ok b0 b1 \<and> continuation b2
             then Some ((b0 - 0xE0) * 4096 + (b1 - 0x80) * 64 + (b2 - 0x80), 3) else None
         | _ \<Rightarrow> None)
      else if 0xF0 \<le> b0 \<and> b0 \<le> 0xF4 then
        (case bs of
           b1 # b2 # b3 # _ \<Rightarrow>
             if second_ok b0 b1 \<and> continuation b2 \<and> continuation b3
             then Some ((b0 - 0xF0) * 262144 + (b1 - 0x80) * 4096 + (b2 - 0x80) * 64
                        + (b3 - 0x80), 4)
             else None
         | _ \<Rightarrow> None)
      else None)"

function utf8_ignore :: "nat list \<Rightarrow> unicode" where
  "utf8_ignore bs =
     (if bs = [] then []
      else case utf8_head bs of
             Some (cp, n) \<Rightarrow> cp # utf8_ignore (drop n bs)
           | None \<Rightarrow> utf8_ignore (tl bs))"
  by pat_completeness auto
termination
proof (relation "measure length")
  show "wf (measure length)"
    by simp
next
  fix bs :: "nat list" and x2 :: "nat \<times> nat" and cp n :: nat
  assume "bs \<noteq> []" and "utf8_head bs = Some x2" and "(cp, n) = x2"
  then have "utf8_head bs = Some (cp, n)"
    by simp
  then have "0 < n"
    by (cases bs) (auto split: if_splits list.splits)
  with \<open>bs \<noteq> []\<close> show "(drop n bs, bs) \<in> measure length"
    by simp
next
  fix bs :: "nat list"
  assume "bs \<noteq> []"
  then show "(tl bs, bs) \<in> measure length"
    by (cases bs) simp_all
qed

declare utf8_ignore.simps [simp del]

text \<open>Universal newlines of text mode: \<open>"\r\n"\<close> and \<open>"\r"\<close> are read as \<open>"\n"\<close>.\<close>

fun universal_newlines :: "unicode \<Rightarrow> unicode" where
  "universal_newlines [] = []"
| "universal_newlines [c] = [if c = 13 then 10 else c]"
| "universal_newlines (c # d # cs) =
     (if c = 13 \<and> d = 10 then 10 # universal_newlines cs
      else if c = 13 then 10 # universal_newlines (d # cs)
      else c # universal_newlines (d # cs))"

definition read_text :: "byte list \<Rightarrow> unicode" where
  "read_text data = universal_newlines (utf8_ignore (map unat data))"

section \<open>The source tree and the environment\<close>

text \<open>
  The source tree as the walk finds it after the output directory has been emptied: a
  directory is the list of its entries in the order \<open>scandir\<close> reports them; a regular file
  carries what opening and reading it gives, the cause of the \<open>OSError\<close> or its bytes.
  Symbolic links are left out. The pages of a run are written below the output directory
  only, and every directory below it is skipped by the walk, so the entries of the
  directories that are visited do not change during the run.
\<close>

type_synonym cause = string

datatype node = File string "cause + byte list" | Dir string "node list"

fun node_name :: "node \<Rightarrow> string" where
  "node_name (File name data) = name"
| "node_name (Dir name entries) = name"

fun is_dir :: "node \<Rightarrow> bool" where
  "is_dir (File name data) = False"
| "is_dir (Dir name entries) = True"

text \<open>
  \<open>os.walk(source_dir)\<close>, top-down: a directory is reported before its subdirectories, which
  follow in the order of its entries. The source gets \<open>root\<close> and recovers the path relative
  to \<open>source_dir\<close>; the model carries that relative path. \<open>dirs\<close> and \<open>files\<close> of the
  triple are the directory and the other entries of the second component.
\<close>

fun os_walk :: "path \<Rightarrow> node list \<Rightarrow> (path \<times> node list) list"
  and os_walk_subdirs :: "path \<Rightarrow> node list \<Rightarrow> (path \<times> node list) list" where
  "os_walk root entries = (root, entries) # os_walk_subdirs root entries"
| "os_walk_subdirs root [] = []"
| "os_walk_subdirs root (File name data # rest) = os_walk_subdirs root rest"
| "os_walk_subdirs root (Dir name entries # rest) =
     os_walk (root @ [name]) entries @ os_walk_subdirs root rest"

text \<open>
  What the program gets from outside: the Markdown engine (which may raise), the wall clock
  read when the page of a source node is rendered, and whether opening a page for writing or
  creating a directory fails for a reason of the operating system.
\<close>

record env =
  convert :: "string list \<Rightarrow> unicode \<Rightarrow> cause + string"
  now :: "path \<Rightarrow> string"
  write_error :: "path \<Rightarrow> cause option"
  mkdir_error :: "path \<Rightarrow> cause option"

section \<open>Pages\<close>

text \<open>
  A page is the template with its five slots filled; the template is a fixed string, so the
  page is kept as the values of the slots. The body of a listing page is kept as its heading
  and its cards, those of the directories and those of the files; the source renders the
  directories first, then the files, and a placeholder paragraph when there is no card.
\<close>

datatype card_type = Directory_label | File_label string

datatype card = Card (card_name: string) (card_path: string) (card_type: card_type)

datatype body = Converted string | Listing string "card list" "card list"

record page =
  title :: string
  breadcrumb :: "crumb list"
  content :: body
  timestamp :: string
  home_path :: string

section \<open>The generator\<close>

record generator =
  source_dir :: path
  output_dir :: path
  format_markdown :: bool
  markdown_extensions :: "string list"

definition FastSiteGenerator :: "string \<Rightarrow> string \<Rightarrow> bool \<Rightarrow> generator" where
  "FastSiteGenerator source_dir_arg output_dir_arg format_markdown_arg =
     \<lparr>source_dir = Path source_dir_arg,
      output_dir = Path output_dir_arg,
      format_markdown = format_markdown_arg,
      markdown_extensions = [''toc'', ''tables'', ''fenced_code'', ''codehilite'']\<rparr>"

definition format_markdown_file :: "generator \<Rightarrow> path \<Rightarrow> bool" where
  "format_markdown_file g md_path = True"

definition process_markdown ::
  "generator \<Rightarrow> env \<Rightarrow> path \<Rightarrow> cause + byte list \<Rightarrow> path \<Rightarrow> cause + page" where
  "process_markdown g e md_path data relative_path =
     (let formatted = format_markdown_file g md_path
      in case data of
           Inl c \<Rightarrow> Inl c
         | Inr bytes \<Rightarrow>
             let content = read_text bytes
             in case convert e (markdown_extensions g) content of
                  Inl c \<Rightarrow> Inl c
                | Inr html_content \<Rightarrow>
                    let parent_path = butlast relative_path;
                        path_to_root = get_relative_path_to_root parent_path;
                        home_path = path_to_root @ ''/index.html'';
                        breadcrumb = create_breadcrumb parent_path
                    in Inr \<lparr>title = stem (name_of md_path),
                            breadcrumb = breadcrumb,
                            content = Converted html_content,
                            timestamp = now e relative_path,
                            home_path = home_path\<rparr>)"

text \<open>
  The loop of \<open>create_directory_listing\<close> over the sorted entries: an entry is passed over
  when hidden or named as the output directory, a directory adds a card to \<open>dirs\<close>, a file
  with a recognised suffix adds one to \<open>files\<close>. The state of the loop is \<open>(files, dirs)\<close>.
\<close>

definition listing_step ::
  "generator \<Rightarrow> card list \<times> card list \<Rightarrow> node \<Rightarrow> card list \<times> card list" where
  "listing_step g acc item =
     (let (files, dirs) = acc; name = node_name item
      in if startswith name ''.'' \<or> name = name_of (output_dir g) then (files, dirs)
         else if is_dir item
              then (files, dirs @ [Card name (name @ ''/index.html'') Directory_label])
         else if lower (suffix_of name) \<in> set [''.md'', ''.txt'']
              then (files @ [Card name (stem name @ ''.html'') (File_label (upper (suffix_of name)))],
                    dirs)
         else (files, dirs))"

definition create_directory_listing ::
  "generator \<Rightarrow> env \<Rightarrow> node list \<Rightarrow> path \<Rightarrow> page" where
  "create_directory_listing g e entries relative_path =
     (let (files, dirs) = foldl (listing_step g) ([], []) (sort_key node_name entries);
          heading = (if name_of relative_path \<noteq> [] then name_of relative_path
                     else ''Documentation'');
          content = Listing (title_case (replace_char CHR ''-'' CHR '' ''
                                           (replace_char CHR ''_'' CHR '' '' heading)))
                            dirs files;
          path_to_root = get_relative_path_to_root relative_path;
          home_path = path_to_root @ ''/index.html'';
          breadcrumb = create_breadcrumb relative_path
      in \<lparr>title = (if name_of relative_path \<noteq> [] then name_of relative_path else ''Home''),
          breadcrumb = breadcrumb,
          content = content,
          timestamp = now e relative_path,
          home_path = home_path\<rparr>)"

section \<open>The tree walker\<close>

text \<open>
  A run is the sequence of its effects, in the order they happen: the calls that change the
  output tree and the lines that are printed. \<open>Mkdir\<close> is the plain \<open>mkdir()\<close> of the
  output directory, \<open>Makedirs\<close> the \<open>mkdir(parents=True, exist_ok=True)\<close> of a mirrored
  directory. An exception that nothing catches ends the run; \<open>raised\<close> holds its cause.
  Printing is taken to succeed; the two closing lines of \<open>generate_site\<close> are the one
  message \<open>Finished\<close>.
\<close>

datatype message =
    Starting
  | File_done path
  | File_error path cause
  | Dir_done path
  | Dir_error path cause
  | Finished path

datatype event =
    Rmtree path
  | Mkdir path
  | Touch path
  | Makedirs path
  | Write path page
  | Print message

record run =
  trace :: "event list"
  raised :: "cause option"

definition emit :: "event \<Rightarrow> run \<Rightarrow> run" where
  "emit ev s = s\<lparr>trace := trace s @ [ev]\<rparr>"

text \<open>A regular file exists at \<open>p\<close> when the run has written or touched it.\<close>

definition is_file :: "event list \<Rightarrow> path \<Rightarrow> bool" where
  "is_file tr p =
     list_ex (\<lambda>ev. case ev of Write q pg \<Rightarrow> q = p | Touch q \<Rightarrow> q = p | _ \<Rightarrow> False) tr"

text \<open>
  \<open>output_dir_path.mkdir(parents=True, exist_ok=True)\<close> raises \<open>FileExistsError\<close> when the
  path is a regular file, which here is a page the run wrote before, or fails for a reason
  of the environment. (The ancestors of the path are directories that earlier iterations
  created.)
\<close>

definition makedirs :: "env \<Rightarrow> path \<Rightarrow> run \<Rightarrow> cause + run" where
  "makedirs e p s =
     (if is_file (trace s) p then Inl ''File exists''
      else case mkdir_error e p of
             Some c \<Rightarrow> Inl c
           | None \<Rightarrow> Inr (emit (Makedirs p) s))"

text \<open>
  \<open>with open(p, "w", encoding="utf-8") as f: f.write(html)\<close>. A failure leaves no page.
\<close>

definition write_page :: "env \<Rightarrow> path \<Rightarrow> page \<Rightarrow> run \<Rightarrow> cause + run" where
  "write_page e p html s =
     (case write_error e p of
        Some c \<Rightarrow> Inl c
      | None \<Rightarrow> Inr (emit (Write p html) s))"

text \<open>
  The body of the loop over \<open>files\<close>, with its \<open>try\<close> and \<open>except Exception\<close>. The loop of
  the model runs over all entries of the directory; a directory is not among \<open>files\<close> and is
  passed over.
\<close>

fun process_file :: "generator \<Rightarrow> env \<Rightarrow> path \<Rightarrow> path \<Rightarrow> run \<Rightarrow> node \<Rightarrow> run" where
  "process_file g e relative_path output_dir_path s (Dir name entries) = s"
| "process_file g e relative_path output_dir_path s (File file data) =
     (if startswith file ''.'' then s
      else
        let root_path = source_dir g @ relative_path;
            file_path = root_path @ [file];
            rel_file_path = (if relative_path \<noteq> [] then relative_path @ [file] else [file])
        in if endswith (lower file) ''.md'' \<or> endswith (lower file) ''.txt'' then
             (case process_markdown g e file_path data rel_file_path of
                Inl c \<Rightarrow> emit (Print (File_error rel_file_path c)) s
              | Inr html_content \<Rightarrow>
                  let output_file = output_dir_path @ [stem file @ ''.html'']
                  in case write_page e output_file html_content s of
                       Inl c \<Rightarrow> emit (Print (File_error rel_file_path c)) s
                     | Inr s' \<Rightarrow> emit (Print (File_done rel_file_path)) s')
           else s)"

text \<open>
  The body of the loop over the triples of \<open>os.walk\<close>. The two \<open>continue\<close> statements leave
  the run as it is; the \<open>mkdir\<close> is outside every \<open>try\<close>, so its exception ends the run.
\<close>

definition visit :: "generator \<Rightarrow> env \<Rightarrow> path \<times> node list \<Rightarrow> run \<Rightarrow> run" where
  "visit g e triple s =
     (let (relative_path, entries) = triple;
          root_path = source_dir g @ relative_path
      in if list_ex (\<lambda>part. startswith part ''.'' \<or> part = name_of (output_dir g)) relative_path
         then s
         else if root_path = output_dir g \<or> output_dir g \<in> set (parents root_path)
         then s
         else
           let output_dir_path = (if relative_path \<noteq> [] then output_dir g @ relative_path
                                  else output_dir g)
           in case makedirs e output_dir_path s of
                Inl c \<Rightarrow> s\<lparr>raised := Some c\<rparr>
              | Inr s1 \<Rightarrow>
                  let s2 = foldl (process_file g e relative_path output_dir_path) s1 entries;
                      dir_html = create_directory_listing g e entries relative_path;
                      index_file = output_dir_path @ [''index.html'']
                  in case write_page e index_file dir_html s2 of
                       Inl c \<Rightarrow> emit (Print (Dir_error relative_path c)) s2
                     | Inr s3 \<Rightarrow> emit (Print (Dir_done relative_path)) s3)"

text \<open>The \<open>for\<close> loop: it goes on to the next triple unless an exception was raised.\<close>

fun for_each_root ::
  "generator \<Rightarrow> env \<Rightarrow> (path \<times> node list) list \<Rightarrow> run \<Rightarrow> run" where
  "for_each_root g e [] s = s"
| "for_each_root g e (triple # rest) s =
     (let s' = visit g e triple s
      in if raised s' = None then for_each_root g e rest s' else s')"

text \<open>
  \<open>generate_site\<close>. The output directory exists when it is called (the constructor has
  created it), so it is removed, created anew and given its \<open>.nojekyll\<close> marker; these three
  calls are taken to succeed.
\<close>

definition generate_site :: "generator \<Rightarrow> env \<Rightarrow> node list \<Rightarrow> run" where
  "generate_site g e tree =
     (let s0 = \<lparr>trace = [Print Starting, Rmtree (output_dir g), Mkdir (output_dir g),
                          Touch (output_dir g @ [''.nojekyll''])],
                 raised = None\<rparr>;
          s1 = for_each_root g e (os_walk [] tree) s0
      in if raised s1 = None then emit (Print (Finished (output_dir g))) s1 else s1)"

text \<open>
  The argument parsing of \<open>main\<close>; \<open>argv ! 0\<close> is the name of the program. The check that
  the \<open>markdown\<close> package can be imported and the deployment notes printed at the end are
  left out.
\<close>

definition parse_args :: "string list \<Rightarrow> string \<times> string \<times> bool" where
  "parse_args argv =
     (let source_dir = (if length argv > 1 then argv ! 1 else ''.'');
          output_dir = (if length argv > 2 then argv ! 2 else ''docs'');
          format_markdown = (if length argv > 3
                             then lower (argv ! 3) \<notin> set [''false'', ''0'', ''no'']
                             else True)
      in (source_dir, output_dir, format_markdown))"

definition main :: "string list \<Rightarrow> env \<Rightarrow> node list \<Rightarrow> run" where
  "main argv e tree =
     (let (source_dir, output_dir, format_markdown) = parse_args argv;
          generator = FastSiteGenerator source_dir output_dir format_markdown
      in generate_site generator e tree)"

section \<open>Vocabulary of the properties\<close>

text \<open>The tests of the walker, named: a hidden name, a recognised extension, a skipped directory.\<close>

definition hidden :: "string \<Rightarrow> bool" where
  "hidden name = startswith name ''.''"

definition eligible :: "string \<Rightarrow> bool" where
  "eligible file = (endswith (lower file) ''.md'' \<or> endswith (lower file) ''.txt'')"

definition excluded :: "generator \<Rightarrow> path \<Rightarrow> bool" where
  "excluded g relative_path =
     (list_ex (\<lambda>part. startswith part ''.'' \<or> part = name_of (output_dir g)) relative_path
      \<or> source_dir g @ relative_path = output_dir g
      \<or> output_dir g \<in> set (parents (source_dir g @ relative_path)))"

text \<open>
  The effects that one entry, the index page and a whole iteration add to the run when the
  directory is not skipped and its \<open>mkdir\<close> succeeds.
\<close>

definition file_events :: "generator \<Rightarrow> env \<Rightarrow> path \<Rightarrow> node \<Rightarrow> event list" where
  "file_events g e rel n =
     (case n of
        Dir name entries \<Rightarrow> []
      | File file data \<Rightarrow>
          if hidden file \<or> \<not> eligible file then []
          else case process_markdown g e (source_dir g @ rel @ [file]) data (rel @ [file]) of
                 Inl c \<Rightarrow> [Print (File_error (rel @ [file]) c)]
               | Inr pg \<Rightarrow>
                   (case write_error e (output_dir g @ rel @ [stem file @ ''.html'']) of
                      Some c \<Rightarrow> [Print (File_error (rel @ [file]) c)]
                    | None \<Rightarrow> [Write (output_dir g @ rel @ [stem file @ ''.html'']) pg,
                               Print (File_done (rel @ [file]))]))"

definition index_events :: "generator \<Rightarrow> env \<Rightarrow> path \<Rightarrow> node list \<Rightarrow> event list" where
  "index_events g e rel entries =
     (case write_error e (output_dir g @ rel @ [''index.html'']) of
        Some c \<Rightarrow> [Print (Dir_error rel c)]
      | None \<Rightarrow> [Write (output_dir g @ rel @ [''index.html''])
                       (create_directory_listing g e entries rel),
                 Print (Dir_done rel)])"

definition dir_events :: "generator \<Rightarrow> env \<Rightarrow> path \<times> node list \<Rightarrow> event list" where
  "dir_events g e triple =
     (case triple of (rel, entries) \<Rightarrow>
        Makedirs (output_dir g @ rel) # concat (map (file_events g e rel) entries)
          @ index_events g e rel entries)"








text \<open>The triples of the walk whose directory is not skipped.\<close>

definition visited :: "generator \<Rightarrow> (path \<times> node list) list \<Rightarrow> (path \<times> node list) list" where
  "visited g triples = filter (\<lambda>triple. \<not> excluded g (fst triple)) triples"

text \<open>The paths of the regular files that a sequence of effects has created.\<close>

fun created_file :: "event \<Rightarrow> path list" where
  "created_file (Write p pg) = [p]"
| "created_file (Touch p) = [p]"
| "created_file ev = []"

definition created_files :: "event list \<Rightarrow> path list" where
  "created_files tr = concat (map created_file tr)"

text \<open>No directory of the tree bears a name that ends in \<open>.html\<close>.\<close>

definition dirs_not_named_as_pages :: "node list \<Rightarrow> bool" where
  "dirs_not_named_as_pages tree =
     (\<forall>(rel, entries) \<in> set (os_walk [] tree). rel \<noteq> [] \<longrightarrow> \<not> endswith (last rel) ''.html'')"

text \<open>
  The effects of the per-file step for a file of the directory \<open>dir\<close> (the write of a content
  page into its mirror, or the line printed for the file), and those of the index step of \<open>dir\<close>.
\<close>

definition file_step :: "generator \<Rightarrow> path \<Rightarrow> event \<Rightarrow> bool" where
  "file_step g dir ev =
     (case ev of
        Write p pg \<Rightarrow> p \<noteq> [] \<and> butlast p = output_dir g @ dir
                      \<and> (case content pg of Converted html \<Rightarrow> True | Listing h ds fs \<Rightarrow> False)
      | Print msg \<Rightarrow> (case msg of
                        File_done p \<Rightarrow> p \<noteq> [] \<and> butlast p = dir
                      | File_error p c \<Rightarrow> p \<noteq> [] \<and> butlast p = dir
                      | _ \<Rightarrow> False)
      | _ \<Rightarrow> False)"

definition index_step :: "generator \<Rightarrow> path \<Rightarrow> event \<Rightarrow> bool" where
  "index_step g dir ev =
     (case ev of
        Write p pg \<Rightarrow> p = output_dir g @ dir @ [''index.html'']
                      \<and> (case content pg of Converted html \<Rightarrow> False | Listing h ds fs \<Rightarrow> True)
      | Print msg \<Rightarrow> (case msg of
                        Dir_done d \<Rightarrow> d = dir
                      | Dir_error d c \<Rightarrow> d = dir
                      | _ \<Rightarrow> False)
      | _ \<Rightarrow> False)"

text \<open>No per-file step of \<open>dir\<close> comes after an index step of \<open>dir\<close>.\<close>

fun files_before_index :: "generator \<Rightarrow> path \<Rightarrow> event list \<Rightarrow> bool" where
  "files_before_index g dir [] = True"
| "files_before_index g dir (ev # evs) =
     ((index_step g dir ev \<longrightarrow> (\<forall>later \<in> set evs. \<not> file_step g dir later))
      \<and> files_before_index g dir evs)"

text \<open>
  The names of the entries of a directory from which the walker makes content pages, and the
  condition that no two pages of a visited directory get the same path: the base names of
  these entries differ from each other and from \<open>index\<close>.
\<close>

definition page_sources :: "node list \<Rightarrow> string list" where
  "page_sources entries =
     concat (map (\<lambda>item. case item of
                           File name data \<Rightarrow> if \<not> hidden name \<and> eligible name then [name] else []
                         | Dir name sub \<Rightarrow> [])
                 entries)"

definition no_shared_pages :: "generator \<Rightarrow> node list \<Rightarrow> bool" where
  "no_shared_pages g tree =
     (\<forall>(dir, entries) \<in> set (os_walk [] tree).
        \<not> excluded g dir \<longrightarrow>
          distinct (map stem (page_sources entries))
          \<and> ''index'' \<notin> set (map stem (page_sources entries)))"

subsection \<open>Inputs on which the properties are exercised\<close>

text \<open>
  A generator that reads the current directory and writes to \<open>docs\<close>, one whose output
  directory is named like a page, an environment in which only the conversion of an empty
  document fails, and four small source trees.
\<close>

definition example_generator :: generator where
  "example_generator =
     \<lparr>source_dir = [], output_dir = [''docs''], format_markdown = True,
      markdown_extensions = [''toc'', ''tables'', ''fenced_code'', ''codehilite'']\<rparr>"

definition example_env :: env where
  "example_env =
     \<lparr>convert = (\<lambda>extensions content. if content = [] then Inl ''empty document''
                                        else Inr ''<p>text</p>''),
      now = (\<lambda>p. ''2024-01-01 00:00:00''),
      write_error = (\<lambda>p. None),
      mkdir_error = (\<lambda>p. None)\<rparr>"


definition example_tree :: "node list" where
  "example_tree =
     [File ''README.md'' (Inr [0x68, 0x69]),
      Dir ''guide''
        [File ''setup.md'' (Inr [0x68]),
         File ''bad.txt'' (Inl ''Permission denied''),
         File ''notes.png'' (Inr [])],
      Dir ''.git'' [File ''config.md'' (Inr [0x68])]]"


definition shared_page_tree :: "node list" where
  "shared_page_tree =
     [File ''index.md'' (Inr [0x68]), File ''a.md'' (Inr [0x68]), File ''a.txt'' (Inr [0x69])]"

section \<open>The effects of one iteration\<close>

lemma if_nonempty_append [simp]:
  "(if rel \<noteq> [] then out @ rel else out) = out @ rel"
  "(if rel \<noteq> [] then rel @ [file] else [file]) = rel @ [file]"
  by simp_all

lemma process_file_events:
  "process_file g e rel (output_dir g @ rel) s n = s\<lparr>trace := trace s @ file_events g e rel n\<rparr>"
  by (cases n)
     (auto simp: file_events_def hidden_def eligible_def write_page_def emit_def Let_def
           split: sum.splits option.splits)

lemma foldl_process_file_events:
  "foldl (process_file g e rel (output_dir g @ rel)) s entries
     = s\<lparr>trace := trace s @ concat (map (file_events g e rel) entries)\<rparr>"
  by (induction entries arbitrary: s) (simp_all add: process_file_events)

lemma visit_excluded: "excluded g rel \<Longrightarrow> visit g e (rel, entries) s = s"
  by (auto simp: visit_def excluded_def Let_def)

lemma visit_raises:
  "\<not> excluded g rel \<Longrightarrow> makedirs e (output_dir g @ rel) s = Inl c
     \<Longrightarrow> visit g e (rel, entries) s = s\<lparr>raised := Some c\<rparr>"
  by (auto simp: visit_def excluded_def Let_def)

lemma visit_events:
  "\<not> excluded g rel \<Longrightarrow> makedirs e (output_dir g @ rel) s = Inr s1
     \<Longrightarrow> visit g e (rel, entries) s = s\<lparr>trace := trace s @ dir_events g e (rel, entries)\<rparr>"
  by (auto simp: visit_def excluded_def dir_events_def index_events_def makedirs_def emit_def
        write_page_def foldl_process_file_events Let_def split: if_splits option.splits)

section \<open>Properties of the path relativizer\<close>

text \<open>
  C2: the prefix to the root is \<open>"."\<close> at depth 0 and otherwise depth-many \<open>".."\<close> joined by
  \<open>"/"\<close>; it is a function of the number of segments alone, so two paths with the same
  number of segments have the same prefix. (The function is pure: it reads and writes no
  state.)
\<close>

theorem get_relative_path_to_root_depth_only:
  "get_relative_path_to_root p =
     (if length p = 0 then ''.'' else join ''/'' (replicate (length p) ''..''))
   \<and> (length p = length q \<longrightarrow> get_relative_path_to_root p = get_relative_path_to_root q)"
  by (auto simp: get_relative_path_to_root_def Let_def)

theorem get_relative_path_to_root_depth_only_witness:
  "get_relative_path_to_root [''guide'', ''api''] = ''../..''
   \<and> length [''guide'', ''api''] = length [''x'', ''y'']
   \<and> get_relative_path_to_root [''guide'', ''api''] = get_relative_path_to_root [''x'', ''y'']"
  using get_relative_path_to_root_depth_only [of "[''guide'', ''api'']" "[''x'', ''y'']"]
  by (auto simp: numeral_2_eq_2)

lemma create_breadcrumb_foldl:
  "foldl (\<lambda>breadcrumb (i, part). breadcrumb @ [f i part]) acc (enumerate k xs)
     = acc @ map (\<lambda>(i, part). f i part) (enumerate k xs)"
  by (induction xs arbitrary: acc k) simp_all

lemma create_breadcrumb_map:
  "create_breadcrumb p =
     Crumb (get_relative_path_to_root p @ ''/index.html'') ''Home'' #
     map (\<lambda>(i, part). Crumb (if length p - i - 1 > 0
                                then join ''/'' (replicate (length p - i - 1) ''..'') @ ''/index.html''
                                else ''index.html'') part) (enumerate 0 p)"
  unfolding create_breadcrumb_def Let_def
  by (cases "p = []") (simp_all add: create_breadcrumb_foldl)

text \<open>
  C3: the trail starts with the Home entry, whose link is the prefix to the root followed by
  \<open>"/index.html"\<close>; the root has only that entry; otherwise there is one more entry per
  segment, so the length is depth + 1; the entry of segment \<open>i\<close> of \<open>N + 1\<close> segments carries
  that segment as label and links \<open>N - i\<close> levels up (\<open>"index.html"\<close> itself when that is 0);
  the last entry is labelled with the node's own name.
\<close>

theorem create_breadcrumb_trail:
  "length (create_breadcrumb p) = length p + 1
   \<and> hd (create_breadcrumb p) = Crumb (get_relative_path_to_root p @ ''/index.html'') ''Home''
   \<and> (p = [] \<longrightarrow> create_breadcrumb p = [Crumb (get_relative_path_to_root p @ ''/index.html'') ''Home''])
   \<and> (\<forall>i < length p.
         create_breadcrumb p ! (i + 1) =
           Crumb (if length p - 1 - i = 0 then ''index.html''
                  else join ''/'' (replicate (length p - 1 - i) ''..'') @ ''/index.html'')
                 (p ! i))
   \<and> (p \<noteq> [] \<longrightarrow> label (last (create_breadcrumb p)) = last p)"
proof -
  have len: "length (create_breadcrumb p) = length p + 1"
    by (simp add: create_breadcrumb_map)
  have nth: "create_breadcrumb p ! (i + 1) =
           Crumb (if length p - 1 - i = 0 then ''index.html''
                  else join ''/'' (replicate (length p - 1 - i) ''..'') @ ''/index.html'')
                 (p ! i)" if "i < length p" for i
    using that by (simp add: create_breadcrumb_map nth_enumerate_eq)
  have "label (last (create_breadcrumb p)) = last p" if "p \<noteq> []"
  proof -
    have "create_breadcrumb p \<noteq> []"
      using len by auto
    then have "last (create_breadcrumb p) = create_breadcrumb p ! (length (create_breadcrumb p) - 1)"
      by (rule last_conv_nth)
    also have "\<dots> = create_breadcrumb p ! (length p - 1 + 1)"
      using that by (simp only: len) simp
    finally have "label (last (create_breadcrumb p)) = label (create_breadcrumb p ! (length p - 1 + 1))"
      by simp
    also have "\<dots> = p ! (length p - 1)"
      using that by (subst nth) simp_all
    finally show ?thesis using that by (simp add: last_conv_nth)
  qed
  then show ?thesis using len nth by (simp add: create_breadcrumb_map)
qed

theorem create_breadcrumb_trail_witness:
  "(0::nat) < length [''guide'', ''api'']
   \<and> create_breadcrumb [''guide'', ''api''] ! 1 = Crumb ''../index.html'' ''guide''
   \<and> [''guide'', ''api''] \<noteq> []
   \<and> label (last (create_breadcrumb [''guide'', ''api''])) = ''api''
   \<and> create_breadcrumb [] = [Crumb ''./index.html'' ''Home'']"
  using create_breadcrumb_trail [of "[''guide'', ''api'']"] create_breadcrumb_trail [of "[]"]
  by (auto simp: get_relative_path_to_root_def)

section \<open>The reserved flag\<close>

lemma process_markdown_flag:
  "process_markdown (g\<lparr>format_markdown := b\<rparr>) e md_path data rel = process_markdown g e md_path data rel"
  by (simp add: process_markdown_def format_markdown_file_def Let_def split: sum.splits)

lemma process_file_flag:
  "process_file (g\<lparr>format_markdown := b\<rparr>) = process_file g"
proof (intro ext)
  fix e rel out s n
  show "process_file (g\<lparr>format_markdown := b\<rparr>) e rel out s n = process_file g e rel out s n"
    by (cases n) (simp_all add: process_markdown_flag Let_def)
qed

lemma create_directory_listing_flag:
  "create_directory_listing (g\<lparr>format_markdown := b\<rparr>) = create_directory_listing g"
proof -
  have "listing_step (g\<lparr>format_markdown := b\<rparr>) = listing_step g"
    by (intro ext) (simp add: listing_step_def)
  then show ?thesis
    by (intro ext) (simp add: create_directory_listing_def)
qed

lemma fields_flag:
  "source_dir (g\<lparr>format_markdown := b\<rparr>) = source_dir g"
  "output_dir (g\<lparr>format_markdown := b\<rparr>) = output_dir g"
  "markdown_extensions (g\<lparr>format_markdown := b\<rparr>) = markdown_extensions g"
  by simp_all

lemma visit_flag: "visit (g\<lparr>format_markdown := b\<rparr>) e triple s = visit g e triple s"
  unfolding visit_def process_file_flag create_directory_listing_flag fields_flag by (rule refl)

lemma for_each_root_flag:
  "for_each_root (g\<lparr>format_markdown := b\<rparr>) e triples s = for_each_root g e triples s"
  by (induction triples arbitrary: s) (simp_all add: visit_flag Let_def)

lemma generate_site_flag:
  "generate_site (g\<lparr>format_markdown := b\<rparr>) e tree = generate_site g e tree"
  by (simp add: generate_site_def for_each_root_flag Let_def del: os_walk.simps)

lemma FastSiteGenerator_flag:
  "FastSiteGenerator src out b = (FastSiteGenerator src out b')\<lparr>format_markdown := b\<rparr>"
  by (simp add: FastSiteGenerator_def)

text \<open>
  C8: the \<open>format_markdown\<close> field is never read, so two generators that differ in it alone
  give the same run, and so do two command lines that differ in the third argument alone (or
  in its presence). A third argument that lower-cases to \<open>false\<close>, \<open>0\<close> or \<open>no\<close> is parsed
  to the flag \<open>False\<close>; the parsing has no failing branch.
\<close>

theorem format_markdown_has_no_effect:
  "generate_site (g\<lparr>format_markdown := b\<rparr>) e tree = generate_site g e tree
   \<and> main [prog, src, out, flag] e tree = main [prog, src, out, flag'] e tree
   \<and> main [prog, src, out, flag] e tree = main [prog, src, out] e tree
   \<and> (lower flag \<in> {''false'', ''0'', ''no''}
        \<longrightarrow> parse_args [prog, src, out, flag] = (src, out, False))"
proof -
  have "main [prog, src, out, f] e tree = generate_site (FastSiteGenerator src out True) e tree" for f
    by (simp add: main_def parse_args_def)
       (subst FastSiteGenerator_flag [of src out _ True], simp add: generate_site_flag)
  moreover have "main [prog, src, out] e tree = generate_site (FastSiteGenerator src out True) e tree"
    by (simp add: main_def parse_args_def)
  ultimately show ?thesis
    by (simp add: generate_site_flag parse_args_def)
qed

theorem format_markdown_has_no_effect_witness:
  "lower ''FaLsE'' \<in> {''false'', ''0'', ''no''}
   \<and> parse_args [''prog'', ''.'', ''docs'', ''FaLsE''] = (''.'', ''docs'', False)
   \<and> lower ''NO'' \<in> {''false'', ''0'', ''no''}
   \<and> parse_args [''prog'', ''.'', ''docs'', ''NO''] = (''.'', ''docs'', False)"
proof -
  have 1: "lower ''FaLsE'' \<in> {''false'', ''0'', ''no''}"
    by (simp add: lower_def lower_char_def ascii_uppercase_def ascii_lowercase_def)
  have 2: "lower ''NO'' \<in> {''false'', ''0'', ''no''}"
    by (simp add: lower_def lower_char_def ascii_uppercase_def ascii_lowercase_def)
  show ?thesis
    using 1 2 format_markdown_has_no_effect [of _ _ _ _ "''prog''" "''.''" "''docs''" "''FaLsE''"]
      format_markdown_has_no_effect [of _ _ _ _ "''prog''" "''.''" "''docs''" "''NO''"]
    by blast
qed

section \<open>Names and extensions\<close>

lemma lower_char_dot: "lower_char c = CHR ''.'' \<longleftrightarrow> c = CHR ''.''"
  by (auto simp: lower_char_def ascii_uppercase_def ascii_lowercase_def split: if_splits)



lemma rfind_last_dot:
  "CHR ''.'' \<notin> set t \<Longrightarrow> rfind (st @ CHR ''.'' # t) CHR ''.'' = int (length st)"
proof -
  assume "CHR ''.'' \<notin> set t"
  then have "takeWhile (\<lambda>x. x \<noteq> CHR ''.'') (rev t @ CHR ''.'' # rev st) = rev t"
    by (subst takeWhile_append2) auto
  then show ?thesis
    by (simp add: rfind_def)
qed

lemma stem_last_dot:
  "CHR ''.'' \<notin> set t \<Longrightarrow> t \<noteq> [] \<Longrightarrow> st \<noteq> [] \<Longrightarrow> stem (st @ CHR ''.'' # t) = st"
  by (cases t) (simp_all add: stem_def rfind_last_dot)


text \<open>A letter-case variant of a recognised extension is a dot followed by letters.\<close>

lemma extension_shape:
  assumes "lower ext \<in> {''.md'', ''.txt''}"
  obtains t where "ext = CHR ''.'' # t" and "CHR ''.'' \<notin> set t" and "t \<noteq> []"
proof -
  from assms obtain c t where ext: "ext = c # t" and c: "lower_char c = CHR ''.''"
    and t: "map lower_char t \<in> {''md'', ''txt''}"
    by (cases ext) (auto simp: lower_def)
  have "CHR ''.'' \<notin> set t"
  proof
    assume "CHR ''.'' \<in> set t"
    then have "lower_char CHR ''.'' \<in> lower_char ` set t"
      by (rule imageI)
    moreover have "lower_char CHR ''.'' = CHR ''.''"
      by (simp add: lower_char_dot)
    ultimately have "CHR ''.'' \<in> set (map lower_char t)"
      by simp
    with t show False by auto
  qed
  moreover have "t \<noteq> []" using t by auto
  moreover have "c = CHR ''.''" using c by (simp add: lower_char_dot)
  ultimately show ?thesis using ext that by blast
qed


lemma stem_variant:
  "lower ext \<in> {''.md'', ''.txt''} \<Longrightarrow> st \<noteq> [] \<Longrightarrow> stem (st @ ext) = st"
  by (erule extension_shape) (simp add: stem_last_dot)


section \<open>The cards of a listing\<close>







section \<open>Decoding\<close>

lemma utf8_ignore_skip:
  "utf8_head (b # bs) = None \<Longrightarrow> utf8_ignore (b # bs) = utf8_ignore bs"
  by (subst utf8_ignore.simps) simp

lemma read_text_skip:
  "utf8_head (map unat (b # bs)) = None \<Longrightarrow> read_text (b # bs) = read_text bs"
  by (simp add: read_text_def utf8_ignore_skip)

lemma process_markdown_readable:
  "process_markdown g e md_path (Inr data) rel =
     (case convert e (markdown_extensions g) (read_text data) of
        Inl c \<Rightarrow> Inl c
      | Inr html \<Rightarrow> Inr \<lparr>title = stem (name_of md_path),
                        breadcrumb = create_breadcrumb (butlast rel),
                        content = Converted html,
                        timestamp = now e rel,
                        home_path = get_relative_path_to_root (butlast rel) @ ''/index.html''\<rparr>)"
  by (simp add: process_markdown_def Let_def split: sum.splits)

text \<open>
  C9: a byte at which no well-formed UTF-8 sequence starts is dropped from the text that is
  read. Reading the bytes of a file never fails: for a file that can be opened,
  \<open>process_markdown\<close> fails only with the cause the Markdown engine raises on the decoded
  text, and when the engine succeeds (and the page can be written) the walker writes the
  content page and reports the file as done, whatever the bytes are.
\<close>

theorem undecodable_bytes_are_ignored:
  "(utf8_head (map unat (b # bs)) = None \<longrightarrow> read_text (b # bs) = read_text bs)
   \<and> (process_markdown g e md_path (Inr data) rel_file = Inl c
        \<longrightarrow> convert e (markdown_extensions g) (read_text data) = Inl c)
   \<and> (\<not> hidden fname \<and> eligible fname
        \<and> convert e (markdown_extensions g) (read_text data) = Inr html
        \<and> write_error e (out @ [stem fname @ ''.html'']) = None
        \<longrightarrow> (\<exists>pg. content pg = Converted html
                \<and> process_file g e rel out s (File fname (Inr data)) =
                    emit (Print (File_done (rel @ [fname])))
                      (emit (Write (out @ [stem fname @ ''.html'']) pg) s)))"
proof -
  have 1: "utf8_head (map unat (b # bs)) = None \<longrightarrow> read_text (b # bs) = read_text bs"
    by (simp add: read_text_skip)
  have 2: "process_markdown g e md_path (Inr data) rel_file = Inl c
        \<longrightarrow> convert e (markdown_extensions g) (read_text data) = Inl c"
    by (simp add: process_markdown_readable split: sum.splits)
  have 3: "\<exists>pg. content pg = Converted html
                \<and> process_file g e rel out s (File fname (Inr data)) =
                    emit (Print (File_done (rel @ [fname])))
                      (emit (Write (out @ [stem fname @ ''.html'']) pg) s)"
    if "\<not> hidden fname" "eligible fname"
      "convert e (markdown_extensions g) (read_text data) = Inr html"
      "write_error e (out @ [stem fname @ ''.html'']) = None"
  proof (intro exI conjI)
    let ?pg = "\<lparr>title = stem (name_of (source_dir g @ rel @ [fname])),
                 breadcrumb = create_breadcrumb rel,
                 content = Converted html,
                 timestamp = now e (rel @ [fname]),
                 home_path = get_relative_path_to_root rel @ ''/index.html''\<rparr>"
    show "content ?pg = Converted html"
      by simp
    show "process_file g e rel out s (File fname (Inr data)) =
            emit (Print (File_done (rel @ [fname])))
              (emit (Write (out @ [stem fname @ ''.html'']) ?pg) s)"
      using that
      by (simp add: hidden_def eligible_def process_markdown_readable write_page_def Let_def)
  qed
  show ?thesis using 1 2 3 by blast
qed

theorem undecodable_bytes_are_ignored_witness:
  "utf8_head (map unat [0xFF, 0x69 :: byte]) = None
   \<and> read_text [0xFF, 0x69] = read_text [0x69]
   \<and> read_text [0xFF, 0x69] = [0x69]
   \<and> \<not> hidden ''notes.md'' \<and> eligible ''notes.md''
   \<and> convert example_env (markdown_extensions example_generator) (read_text [0xFF, 0x69])
       = Inr ''<p>text</p>''
   \<and> write_error example_env ([''docs''] @ [stem ''notes.md'' @ ''.html'']) = None
   \<and> trace (process_file example_generator example_env [] [''docs'']
         \<lparr>trace = [], raised = None\<rparr> (File ''notes.md'' (Inr [0xFF, 0x69])))
       = [Write [''docs'', ''notes.html'']
            \<lparr>title = ''notes'', breadcrumb = [Crumb ''./index.html'' ''Home''],
               content = Converted ''<p>text</p>'', timestamp = ''2024-01-01 00:00:00'',
               home_path = ''./index.html''\<rparr>,
          Print (File_done [''notes.md''])]"
proof -
  have head: "utf8_head (map unat [0xFF, 0x69 :: byte]) = None"
    by simp
  have decoded: "read_text [0x69] = [0x69]"
    by (simp add: read_text_def utf8_ignore.simps)
  have name: "\<not> hidden ''notes.md''" "eligible ''notes.md''"
    by (simp_all add: hidden_def startswith_def eligible_def endswith_def lower_def
          lower_char_def ascii_uppercase_def ascii_lowercase_def)
  note inst = undecodable_bytes_are_ignored [where b = "0xFF" and bs = "[0x69]"
      and data = "[0xFF, 0x69]" and fname = "''notes.md''" and g = example_generator
      and e = example_env and out = "[''docs'']" and rel = "[]" and html = "''<p>text</p>''"
      and s = "\<lparr>trace = [], raised = None\<rparr>"]
  have same: "read_text [0xFF, 0x69] = read_text [0x69]"
    using inst head by blast
  have conv: "convert example_env (markdown_extensions example_generator) (read_text [0xFF, 0x69])
       = Inr ''<p>text</p>''"
    by (simp add: same decoded example_env_def)
  have wr: "write_error example_env ([''docs''] @ [stem ''notes.md'' @ ''.html'']) = None"
    by (simp add: example_env_def)
  from inst name conv wr obtain pg where pg: "content pg = Converted ''<p>text</p>''"
    and run: "process_file example_generator example_env [] [''docs'']
         \<lparr>trace = [], raised = None\<rparr> (File ''notes.md'' (Inr [0xFF, 0x69]))
       = emit (Print (File_done ([] @ [''notes.md''])))
           (emit (Write ([''docs''] @ [stem ''notes.md'' @ ''.html'']) pg) \<lparr>trace = [], raised = None\<rparr>)"
    by blast
  have stem: "stem ''notes.md'' = ''notes''"
    using stem_variant [of "''.md''" "''notes''"]
    by (simp add: lower_def lower_char_def ascii_uppercase_def ascii_lowercase_def)
  have "process_markdown example_generator example_env ([] @ [] @ [''notes.md'']) (Inr [0xFF, 0x69]) [''notes.md'']
     = Inr \<lparr>title = ''notes'', breadcrumb = [Crumb ''./index.html'' ''Home''],
               content = Converted ''<p>text</p>'', timestamp = ''2024-01-01 00:00:00'',
               home_path = ''./index.html''\<rparr>"
    using conv
    by (simp add: process_markdown_readable stem name_of_def create_breadcrumb_def
          get_relative_path_to_root_def example_env_def)
  then show ?thesis
    using head same decoded name conv wr
    by (simp add: hidden_def eligible_def write_page_def emit_def stem example_generator_def
          Let_def)
qed

section \<open>The loop over the directories\<close>

lemma for_each_root_Cons:
  "for_each_root g e (triple # rest) s =
     (if raised (visit g e triple s) = None then for_each_root g e rest (visit g e triple s)
      else visit g e triple s)"
  by (simp add: Let_def)

lemma for_each_root_continues:
  "visit g e triple s = s' \<Longrightarrow> raised s' = None
     \<Longrightarrow> for_each_root g e (triple # rest) s = for_each_root g e rest s'"
  by (subst for_each_root_Cons) (simp del: for_each_root.simps)

lemma for_each_root_stops:
  "visit g e triple s = s' \<Longrightarrow> raised s' \<noteq> None
     \<Longrightarrow> for_each_root g e (triple # rest) s = s'"
  by (simp only: for_each_root_Cons if_False)

lemma visited_Cons:
  "visited g ((rel, entries) # rest) =
     (if excluded g rel then visited g rest else (rel, entries) # visited g rest)"
  by (simp add: visited_def)

lemma for_each_root_trace:
  assumes "raised s = None"
  shows "\<exists>seen. prefix seen (visited g triples)
           \<and> trace (for_each_root g e triples s) = trace s @ concat (map (dir_events g e) seen)
           \<and> (raised (for_each_root g e triples s) = None \<longrightarrow> seen = visited g triples)"
  using assms
proof (induction triples arbitrary: s)
  case Nil
  then show ?case by (simp add: visited_def)
next
  case (Cons triple triples)
  obtain rel entries where triple: "triple = (rel, entries)"
    by (cases triple)
  show ?case
  proof (cases "excluded g rel")
    case True
    then have skipped: "visit g e (rel, entries) s = s"
      by (rule visit_excluded)
    have step: "for_each_root g e ((rel, entries) # triples) s = for_each_root g e triples s"
      using skipped Cons.prems by (rule for_each_root_continues)
    from Cons.IH [OF Cons.prems] show ?thesis
      unfolding triple step visited_Cons using True by (simp only: if_True)
  next
    case False
    show ?thesis
    proof (cases "makedirs e (output_dir g @ rel) s")
      case (Inl c)
      with False have raises: "visit g e (rel, entries) s = s\<lparr>raised := Some c\<rparr>"
        by (rule visit_raises)
      have step: "for_each_root g e ((rel, entries) # triples) s = s\<lparr>raised := Some c\<rparr>"
        using raises by (rule for_each_root_stops) simp
      show ?thesis
        unfolding triple step by (intro exI [of _ "[]"]) simp
    next
      case (Inr s1)
      let ?s' = "s\<lparr>trace := trace s @ dir_events g e (rel, entries)\<rparr>"
      from False Inr have visits: "visit g e (rel, entries) s = ?s'"
        by (rule visit_events)
      have none: "raised ?s' = None"
        using Cons.prems by simp
      have step: "for_each_root g e ((rel, entries) # triples) s = for_each_root g e triples ?s'"
        using visits none by (rule for_each_root_continues)
      from Cons.IH [OF none] obtain seen where seen: "prefix seen (visited g triples)"
        "trace (for_each_root g e triples ?s') = trace ?s' @ concat (map (dir_events g e) seen)"
        "raised (for_each_root g e triples ?s') = None \<longrightarrow> seen = visited g triples"
        by (elim exE conjE)
      have "prefix ((rel, entries) # seen) (visited g ((rel, entries) # triples))"
        using False seen(1) by (simp add: visited_Cons)
      moreover have "trace (for_each_root g e triples ?s')
          = trace s @ concat (map (dir_events g e) ((rel, entries) # seen))"
        using seen(2) by simp
      moreover have "raised (for_each_root g e triples ?s') = None
          \<longrightarrow> (rel, entries) # seen = visited g ((rel, entries) # triples)"
        using False seen(3) by (simp add: visited_Cons)
      ultimately show ?thesis
        unfolding triple step by (intro exI [of _ "(rel, entries) # seen"] conjI)
    qed
  qed
qed

lemma generate_site_trace:
  "\<exists>seen. prefix seen (visited g (os_walk [] tree))
     \<and> (raised (generate_site g e tree) = None \<longrightarrow> seen = visited g (os_walk [] tree))
     \<and> trace (generate_site g e tree) =
         [Print Starting, Rmtree (output_dir g), Mkdir (output_dir g),
          Touch (output_dir g @ [''.nojekyll''])]
         @ concat (map (dir_events g e) seen)
         @ (if raised (generate_site g e tree) = None then [Print (Finished (output_dir g))] else [])"
proof -
  let ?s0 = "\<lparr>trace = [Print Starting, Rmtree (output_dir g), Mkdir (output_dir g),
                          Touch (output_dir g @ [''.nojekyll''])], raised = None\<rparr>"
  let ?s1 = "for_each_root g e (os_walk [] tree) ?s0"
  have site: "generate_site g e tree =
      (if raised ?s1 = None then emit (Print (Finished (output_dir g))) ?s1 else ?s1)"
    by (simp only: generate_site_def Let_def)
  have "raised ?s0 = None" by simp
  from for_each_root_trace [OF this, of g "os_walk [] tree" e]
  obtain seen where seen: "prefix seen (visited g (os_walk [] tree))"
    "trace ?s1 = trace ?s0 @ concat (map (dir_events g e) seen)"
    "raised ?s1 = None \<longrightarrow> seen = visited g (os_walk [] tree)"
    by (elim exE conjE)
  have "raised (generate_site g e tree) = raised ?s1"
    unfolding site by (simp add: emit_def del: os_walk.simps)
  moreover have "trace (generate_site g e tree) =
      trace ?s1 @ (if raised ?s1 = None then [Print (Finished (output_dir g))] else [])"
    unfolding site by (simp add: emit_def del: os_walk.simps)
  ultimately show ?thesis
    using seen by (intro exI [of _ seen]) (simp del: os_walk.simps)
qed

section \<open>Files created by a run\<close>

lemma is_file_created_files: "is_file tr p \<longleftrightarrow> p \<in> set (created_files tr)"
proof -
  have "(case ev of Write q pg \<Rightarrow> q = p | Touch q \<Rightarrow> q = p | _ \<Rightarrow> False)
          \<longleftrightarrow> p \<in> set (created_file ev)" for ev
    by (cases ev) auto
  then show ?thesis
    by (simp add: is_file_def created_files_def list_ex_iff)
qed

lemma created_files_append [simp]:
  "created_files (xs @ ys) = created_files xs @ created_files ys"
  by (simp add: created_files_def)

lemma created_files_Cons [simp]:
  "created_files (ev # evs) = created_file ev @ created_files evs"
  by (simp add: created_files_def)

lemma created_files_Nil [simp]: "created_files [] = []"
  by (simp add: created_files_def)

lemma created_files_concat:
  "set (created_files (concat xss)) = (\<Union>xs \<in> set xss. set (created_files xs))"
  by (induction xss) simp_all

lemma created_files_file_events:
  "p \<in> set (created_files (file_events g e rel item))
     \<Longrightarrow> \<exists>fname data. item = File fname data \<and> \<not> hidden fname \<and> eligible fname
           \<and> p = output_dir g @ rel @ [stem fname @ ''.html'']"
  by (cases item) (auto simp: file_events_def split: if_splits sum.splits option.splits)

lemma created_files_index_events:
  "p \<in> set (created_files (index_events g e rel entries))
     \<Longrightarrow> p = output_dir g @ rel @ [''index.html'']"
  by (auto simp: index_events_def split: option.splits)

lemma created_files_dir_events:
  assumes "p \<in> set (created_files (dir_events g e (rel, entries)))"
  shows "p = output_dir g @ rel @ [''index.html'']
         \<or> (\<exists>fname data. File fname data \<in> set entries \<and> \<not> hidden fname \<and> eligible fname
               \<and> p = output_dir g @ rel @ [stem fname @ ''.html''])"
proof -
  from assms consider "p \<in> set (created_files (index_events g e rel entries))"
    | item where "item \<in> set entries" "p \<in> set (created_files (file_events g e rel item))"
    by (auto simp: dir_events_def created_files_concat)
  then show ?thesis
  proof cases
    case 1
    then show ?thesis by (simp add: created_files_index_events)
  next
    case 2
    from created_files_file_events [OF 2(2)] 2(1) show ?thesis by blast
  qed
qed

lemma endswith_html: "endswith (st @ ''.html'') ''.html''" "endswith ''index.html'' ''.html''"
  by (simp_all add: endswith_def)

lemma created_files_dir_events_page:
  "p \<in> set (created_files (dir_events g e (rel, entries)))
     \<Longrightarrow> \<exists>n. p = output_dir g @ rel @ [n] \<and> endswith n ''.html''"
  by (drule created_files_dir_events) (auto simp: endswith_html)

section \<open>Completion\<close>

lemma makedirs_succeeds:
  assumes free: "output_dir g @ rel \<notin> set (created_files (trace s))"
    and env: "mkdir_error e (output_dir g @ rel) = None"
  shows "makedirs e (output_dir g @ rel) s = Inr (emit (Makedirs (output_dir g @ rel)) s)"
  using assms by (simp add: makedirs_def is_file_created_files)

lemma excluded_hidden_part: "part \<in> set rel \<Longrightarrow> startswith part ''.'' \<Longrightarrow> excluded g rel"
  by (auto simp: excluded_def list_ex_iff)

lemma for_each_root_completes:
  assumes "raised s = None"
    and "\<forall>p. mkdir_error e p = None"
    and "\<forall>(rel, entries) \<in> set triples. rel \<noteq> [] \<longrightarrow> \<not> endswith (last rel) ''.html''"
    and "\<forall>p \<in> set (created_files (trace s)).
           \<exists>q n. p = output_dir g @ q @ [n] \<and> (endswith n ''.html'' \<or> n = ''.nojekyll'')"
  shows "raised (for_each_root g e triples s) = None"
  using assms
proof (induction triples arbitrary: s)
  case Nil
  then show ?case by simp
next
  case (Cons triple triples)
  obtain rel entries where triple: "triple = (rel, entries)"
    by (cases triple)
  have names: "\<forall>(rel, entries) \<in> set triples. rel \<noteq> [] \<longrightarrow> \<not> endswith (last rel) ''.html''"
    and name: "rel \<noteq> [] \<longrightarrow> \<not> endswith (last rel) ''.html''"
    using Cons.prems(3) by (simp_all add: triple)
  show ?case
  proof (cases "excluded g rel")
    case True
    then have "visit g e (rel, entries) s = s"
      by (rule visit_excluded)
    then have "for_each_root g e ((rel, entries) # triples) s = for_each_root g e triples s"
      using Cons.prems(1) by (rule for_each_root_continues)
    then show ?thesis
      unfolding triple using Cons.IH [OF Cons.prems(1,2) names Cons.prems(4)] by simp
  next
    case False
    have free: "output_dir g @ rel \<notin> set (created_files (trace s))"
    proof
      assume "output_dir g @ rel \<in> set (created_files (trace s))"
      with Cons.prems(4) obtain q n where "output_dir g @ rel = output_dir g @ q @ [n]"
        and n: "endswith n ''.html'' \<or> n = ''.nojekyll''"
        by blast
      then have rel: "rel = q @ [n]"
        by simp
      then have "rel \<noteq> []" "last rel = n" "n \<in> set rel"
        by simp_all
      with name n have "n = ''.nojekyll''"
        by blast
      then have "startswith n ''.''"
        by (simp add: startswith_def)
      with \<open>n \<in> set rel\<close> have "excluded g rel"
        by (rule excluded_hidden_part)
      with False show False ..
    qed
    let ?s' = "s\<lparr>trace := trace s @ dir_events g e (rel, entries)\<rparr>"
    have "makedirs e (output_dir g @ rel) s = Inr (emit (Makedirs (output_dir g @ rel)) s)"
      using free Cons.prems(2) by (simp add: makedirs_succeeds)
    with False have visits: "visit g e (rel, entries) s = ?s'"
      by (rule visit_events)
    have none: "raised ?s' = None"
      using Cons.prems(1) by simp
    have step: "for_each_root g e ((rel, entries) # triples) s = for_each_root g e triples ?s'"
      using visits none by (rule for_each_root_continues)
    have inv: "\<forall>p \<in> set (created_files (trace ?s')).
           \<exists>q n. p = output_dir g @ q @ [n] \<and> (endswith n ''.html'' \<or> n = ''.nojekyll'')"
    proof
      fix p assume "p \<in> set (created_files (trace ?s'))"
      then consider "p \<in> set (created_files (trace s))"
        | "p \<in> set (created_files (dir_events g e (rel, entries)))"
        by auto
      then show "\<exists>q n. p = output_dir g @ q @ [n] \<and> (endswith n ''.html'' \<or> n = ''.nojekyll'')"
      proof cases
        case 1
        with Cons.prems(4) show ?thesis by blast
      next
        case 2
        from created_files_dir_events_page [OF this] show ?thesis by blast
      qed
    qed
    show ?thesis
      unfolding triple step using Cons.IH [OF none Cons.prems(2) names inv] .
  qed
qed

lemma generate_site_completes:
  assumes "dirs_not_named_as_pages tree" and "\<forall>p. mkdir_error e p = None"
  shows "raised (generate_site g e tree) = None"
proof -
  let ?s0 = "\<lparr>trace = [Print Starting, Rmtree (output_dir g), Mkdir (output_dir g),
                          Touch (output_dir g @ [''.nojekyll''])], raised = None\<rparr>"
  let ?s1 = "for_each_root g e (os_walk [] tree) ?s0"
  have "\<forall>p \<in> set (created_files (trace ?s0)).
           \<exists>q n. p = output_dir g @ q @ [n] \<and> (endswith n ''.html'' \<or> n = ''.nojekyll'')"
    by simp
  moreover have "raised ?s0 = None"
    by simp
  moreover have "\<forall>(rel, entries) \<in> set (os_walk [] tree).
      rel \<noteq> [] \<longrightarrow> \<not> endswith (last rel) ''.html''"
    using assms(1) by (simp only: dirs_not_named_as_pages_def)
  ultimately have "raised ?s1 = None"
    using assms(2) by (intro for_each_root_completes) 
  then show ?thesis
    by (simp only: generate_site_def Let_def) (simp add: emit_def del: os_walk.simps)
qed

section \<open>What a completed run contains\<close>

lemma completed_run_trace:
  assumes "raised (generate_site g e tree) = None"
  shows "trace (generate_site g e tree) =
         [Print Starting, Rmtree (output_dir g), Mkdir (output_dir g),
          Touch (output_dir g @ [''.nojekyll''])]
         @ concat (map (dir_events g e) (visited g (os_walk [] tree)))
         @ [Print (Finished (output_dir g))]"
  using generate_site_trace [of g tree e] assms by (auto simp del: os_walk.simps)

lemma completed_run_dir_events:
  assumes "raised (generate_site g e tree) = None"
    and "(rel, entries) \<in> set (os_walk [] tree)" and "\<not> excluded g rel"
  shows "set (dir_events g e (rel, entries)) \<subseteq> set (trace (generate_site g e tree))"
proof -
  have "(rel, entries) \<in> set (visited g (os_walk [] tree))"
    using assms(2,3) by (simp add: visited_def del: os_walk.simps)
  then show ?thesis
    unfolding completed_run_trace [OF assms(1)] by (auto simp del: os_walk.simps)
qed

lemma index_events_in_dir_events:
  "set (index_events g e rel entries) \<subseteq> set (dir_events g e (rel, entries))"
  by (auto simp: dir_events_def)

lemma file_events_in_dir_events:
  "item \<in> set entries \<Longrightarrow> set (file_events g e rel item) \<subseteq> set (dir_events g e (rel, entries))"
  by (auto simp: dir_events_def)



lemma example_walk:
  "os_walk [] example_tree =
     [([], example_tree),
      ([''guide''], [File ''setup.md'' (Inr [0x68]),
                     File ''bad.txt'' (Inl ''Permission denied''),
                     File ''notes.png'' (Inr [])]),
      ([''.git''], [File ''config.md'' (Inr [0x68])])]"
  by (simp add: example_tree_def)

lemma example_names:
  "\<not> hidden ''setup.md''" "eligible ''setup.md''" "\<not> hidden ''bad.txt''" "eligible ''bad.txt''"
  "stem ''setup.md'' = ''setup''"
  using stem_variant [of "''.md''" "''setup''"]
  by (simp_all add: hidden_def startswith_def eligible_def endswith_def lower_def
        lower_char_def ascii_uppercase_def ascii_lowercase_def)

lemma example_not_excluded: "\<not> excluded example_generator [''guide'']"
  by (simp add: excluded_def example_generator_def name_of_def startswith_def)

lemma example_ok:
  "dirs_not_named_as_pages example_tree" "\<forall>p. mkdir_error example_env p = None"
  unfolding dirs_not_named_as_pages_def example_walk
  by (simp_all add: endswith_def example_env_def)

lemma example_setup_page:
  "process_markdown example_generator example_env (source_dir example_generator @ [''guide''] @ [''setup.md''])
     (Inr [0x68]) ([''guide''] @ [''setup.md''])
   = Inr \<lparr>title = ''setup'',
          breadcrumb = [Crumb ''../index.html'' ''Home'', Crumb ''index.html'' ''guide''],
          content = Converted ''<p>text</p>'', timestamp = ''2024-01-01 00:00:00'',
          home_path = ''../index.html''\<rparr>"
  by (simp add: process_markdown_readable example_names name_of_def example_generator_def
        example_env_def read_text_def utf8_ignore.simps create_breadcrumb_map
        get_relative_path_to_root_def)


section \<open>Where the effects of a run come from\<close>

lemma trace_event_origin:
  assumes "ev \<in> set (trace (generate_site g e tree))"
  obtains (preamble) "ev \<in> {Print Starting, Rmtree (output_dir g), Mkdir (output_dir g),
                             Touch (output_dir g @ [''.nojekyll'']), Print (Finished (output_dir g))}"
  | (directory) rel entries where "(rel, entries) \<in> set (os_walk [] tree)" "\<not> excluded g rel"
      "ev \<in> set (dir_events g e (rel, entries))"
proof -
  from generate_site_trace [of g tree e] obtain seen
    where seen: "prefix seen (visited g (os_walk [] tree))"
      and tr: "trace (generate_site g e tree) =
         [Print Starting, Rmtree (output_dir g), Mkdir (output_dir g),
          Touch (output_dir g @ [''.nojekyll''])]
         @ concat (map (dir_events g e) seen)
         @ (if raised (generate_site g e tree) = None then [Print (Finished (output_dir g))] else [])"
    by (elim exE conjE)
  from assms consider
      "ev \<in> {Print Starting, Rmtree (output_dir g), Mkdir (output_dir g),
              Touch (output_dir g @ [''.nojekyll'']), Print (Finished (output_dir g))}"
    | triple where "triple \<in> set seen" "ev \<in> set (dir_events g e triple)"
    unfolding tr by (auto split: if_splits)
  then show ?thesis
  proof cases
    case 1
    then show ?thesis by (rule preamble)
  next
    case 2
    obtain rel entries where triple: "triple = (rel, entries)"
      by (cases triple)
    from 2(1) seen have "triple \<in> set (visited g (os_walk [] tree))"
      using set_mono_prefix by blast
    then have "(rel, entries) \<in> set (os_walk [] tree)" "\<not> excluded g rel"
      by (simp_all add: visited_def triple del: os_walk.simps)
    then show ?thesis
      using 2(2) by (intro directory [of rel entries]) (simp_all add: triple)
  qed
qed

lemma dir_events_cases:
  assumes "ev \<in> set (dir_events g e (rel, entries))"
  obtains (makedirs) "ev = Makedirs (output_dir g @ rel)"
  | (index) "ev \<in> set (index_events g e rel entries)"
  | (entry) item where "item \<in> set entries" "ev \<in> set (file_events g e rel item)"
  using assms by (auto simp: dir_events_def)

lemma index_events_cases:
  assumes "ev \<in> set (index_events g e rel entries)"
  obtains (written) "write_error e (output_dir g @ rel @ [''index.html'']) = None"
      "ev = Write (output_dir g @ rel @ [''index.html'']) (create_directory_listing g e entries rel)"
  | (reported) "write_error e (output_dir g @ rel @ [''index.html'']) = None"
      "ev = Print (Dir_done rel)"
  | (failed) c where "write_error e (output_dir g @ rel @ [''index.html'']) = Some c"
      "ev = Print (Dir_error rel c)"
  using assms by (auto simp: index_events_def split: option.splits)

lemma file_events_cases:
  assumes "ev \<in> set (file_events g e rel item)"
  obtains (written) fname data pg where "item = File fname data" "\<not> hidden fname" "eligible fname"
      "process_markdown g e (source_dir g @ rel @ [fname]) data (rel @ [fname]) = Inr pg"
      "ev = Write (output_dir g @ rel @ [stem fname @ ''.html'']) pg"
  | (reported) fname data where "item = File fname data" "\<not> hidden fname" "eligible fname"
      "ev = Print (File_done (rel @ [fname]))"
  | (failed) fname data c where "item = File fname data" "\<not> hidden fname" "eligible fname"
      "ev = Print (File_error (rel @ [fname]) c)"
  using assms
  by (cases item) (auto simp: file_events_def split: if_splits sum.splits option.splits)

section \<open>Evaluating runs\<close>

lemma example_env_fields [simp]:
  "write_error example_env p = None" "mkdir_error example_env p = None"
  "now example_env p = ''2024-01-01 00:00:00''"
  by (simp_all add: example_env_def)

lemma example_generator_fields [simp]:
  "source_dir example_generator = []" "output_dir example_generator = [''docs'']"
  by (simp_all add: example_generator_def)





section \<open>Which directories are visited\<close>











section \<open>The order of the steps\<close>

lemma files_before_index_append:
  "files_before_index g dir (xs @ ys) \<longleftrightarrow>
     files_before_index g dir xs \<and> files_before_index g dir ys
     \<and> ((\<exists>ev \<in> set xs. index_step g dir ev) \<longrightarrow> (\<forall>later \<in> set ys. \<not> file_step g dir later))"
  by (induction xs) auto

lemma files_before_index_nth:
  "files_before_index g dir tr \<Longrightarrow> j < i \<Longrightarrow> i < length tr
     \<Longrightarrow> index_step g dir (tr ! j) \<Longrightarrow> \<not> file_step g dir (tr ! i)"
proof (induction tr arbitrary: i j)
  case Nil
  then show ?case by simp
next
  case (Cons ev evs)
  show ?case
  proof (cases j)
    case 0
    with Cons.prems have "index_step g dir ev" and "evs ! (i - 1) \<in> set evs" and "(ev # evs) ! i = evs ! (i - 1)"
      by (auto simp: nth_Cons')
    with Cons.prems(1) show ?thesis by auto
  next
    case (Suc j')
    with Cons.prems obtain i' where i: "i = Suc i'"
      by (cases i) auto
    from Cons.prems Suc i have "files_before_index g dir evs" "j' < i'" "i' < length evs"
      "index_step g dir (evs ! j')"
      by simp_all
    from Cons.IH [OF this] show ?thesis
      by (simp add: i)
  qed
qed

lemma not_both_steps: "file_step g dir ev \<Longrightarrow> \<not> index_step g dir ev"
  by (auto simp: file_step_def index_step_def split: event.splits message.splits body.splits)

lemma content_create_directory_listing:
  "\<exists>h ds fs. content (create_directory_listing g e entries rel) = Listing h ds fs"
  by (simp add: create_directory_listing_def Let_def split: prod.splits)

lemma content_process_markdown:
  "process_markdown g e md_path data rel = Inr pg \<Longrightarrow> \<exists>html. content pg = Converted html"
  by (auto simp: process_markdown_def Let_def split: sum.splits)

lemma file_events_not_index_step:
  "ev \<in> set (file_events g e rel item) \<Longrightarrow> \<not> index_step g dir ev"
  by (erule file_events_cases) (auto simp: index_step_def dest: content_process_markdown)

lemma index_events_not_file_step:
  "ev \<in> set (index_events g e rel entries) \<Longrightarrow> \<not> file_step g dir ev"
  using content_create_directory_listing [of g e entries rel]
  by (erule_tac index_events_cases) (auto simp: file_step_def)

lemma butlast_mirror: "butlast (out @ rel @ [n]) = out @ rel" "butlast (rel @ [n]) = rel"
  by (simp_all add: butlast_append)

lemma step_in_dir_events:
  assumes "ev \<in> set (dir_events g e (rel, entries))"
    and "file_step g dir ev \<or> index_step g dir ev"
  shows "rel = dir"
  using assms(1)
proof (cases rule: dir_events_cases)
  case makedirs
  with assms(2) show ?thesis by (simp add: file_step_def index_step_def)
next
  case index
  then show ?thesis
    using assms(2)
    by (cases rule: index_events_cases) (auto simp: file_step_def index_step_def butlast_mirror)
next
  case (entry item)
  from entry(2) show ?thesis
    using assms(2)
    by (cases rule: file_events_cases) (auto simp: file_step_def index_step_def butlast_mirror)
qed

lemma files_before_index_no_index:
  "\<forall>ev \<in> set tr. \<not> index_step g dir ev \<Longrightarrow> files_before_index g dir tr"
  by (induction tr) auto

lemma files_before_index_no_file:
  "\<forall>ev \<in> set tr. \<not> file_step g dir ev \<Longrightarrow> files_before_index g dir tr"
  by (induction tr) auto

lemma files_before_index_dir_events:
  "files_before_index g dir (dir_events g e (rel, entries))"
proof -
  let ?files = "concat (map (file_events g e rel) entries)"
  have no_index: "\<forall>ev \<in> set ?files. \<not> index_step g dir ev"
    by (auto dest: file_events_not_index_step)
  have no_file: "\<forall>ev \<in> set (index_events g e rel entries). \<not> file_step g dir ev"
    by (auto dest: index_events_not_file_step)
  have "files_before_index g dir (?files @ index_events g e rel entries)"
    unfolding files_before_index_append
    using no_index no_file files_before_index_no_index files_before_index_no_file by blast
  then show ?thesis
    by (simp add: dir_events_def index_step_def)
qed

lemma files_before_index_blocks:
  "distinct (map fst seen) \<Longrightarrow> files_before_index g dir (concat (map (dir_events g e) seen))"
proof (induction seen)
  case Nil
  then show ?case by simp
next
  case (Cons triple seen)
  obtain rel entries where triple: "triple = (rel, entries)"
    by (cases triple)
  from Cons.prems have fresh: "rel \<notin> fst ` set seen" and rest: "distinct (map fst seen)"
    by (simp_all add: triple)
  have later: "\<forall>later \<in> set (concat (map (dir_events g e) seen)). \<not> file_step g dir later"
    if "\<exists>ev \<in> set (dir_events g e (rel, entries)). index_step g dir ev"
  proof
    fix later
    assume "later \<in> set (concat (map (dir_events g e) seen))"
    then obtain rel' entries' where seen: "(rel', entries') \<in> set seen"
      and ev: "later \<in> set (dir_events g e (rel', entries'))"
      by auto
    from that have "rel = dir"
      using step_in_dir_events by blast
    with fresh seen have "rel' \<noteq> dir"
      by force
    with ev show "\<not> file_step g dir later"
      using step_in_dir_events by blast
  qed
  show ?case
    unfolding triple using files_before_index_dir_events [of g dir e rel entries] Cons.IH [OF rest] later
    by (simp add: files_before_index_append)
qed

lemma files_before_index_trace:
  assumes "distinct (map fst (os_walk [] tree))"
  shows "files_before_index g dir (trace (generate_site g e tree))"
proof -
  from generate_site_trace [of g tree e] obtain seen
    where seen: "prefix seen (visited g (os_walk [] tree))"
      and tr: "trace (generate_site g e tree) =
         [Print Starting, Rmtree (output_dir g), Mkdir (output_dir g),
          Touch (output_dir g @ [''.nojekyll''])]
         @ concat (map (dir_events g e) seen)
         @ (if raised (generate_site g e tree) = None then [Print (Finished (output_dir g))] else [])"
    by (elim exE conjE)
  have "distinct (map fst (visited g (os_walk [] tree)))"
    unfolding visited_def using assms by (rule distinct_map_filter)
  moreover from seen obtain rest where "visited g (os_walk [] tree) = seen @ rest"
    by (auto simp: prefix_def)
  ultimately have "distinct (map fst seen)"
    by simp
  then have blocks: "files_before_index g dir (concat (map (dir_events g e) seen))"
    by (rule files_before_index_blocks)
  have pre: "\<forall>ev \<in> set [Print Starting, Rmtree (output_dir g), Mkdir (output_dir g),
          Touch (output_dir g @ [''.nojekyll''])]. \<not> index_step g dir ev"
    by (simp add: index_step_def)
  have fin: "\<forall>ev \<in> set (if raised (generate_site g e tree) = None
                         then [Print (Finished (output_dir g))] else []). \<not> file_step g dir ev"
    by (simp add: file_step_def)
  show ?thesis
    unfolding tr files_before_index_append
    using blocks pre fin files_before_index_no_index [OF pre] files_before_index_no_file [OF fin]
    by blast
qed

text \<open>
  C7: in the trace of a run over a tree in which no two directories have the same path, an
  effect of the per-file step of a directory (the write of a content page into its mirror,
  the line reporting a file of it as done or as failed) never comes after an effect of the
  index step of that directory (the write of its listing page, the line reporting the
  listing): every attempt on a file of the directory precedes the write of its \<open>index.html\<close>.
\<close>

theorem index_written_after_files:
  assumes "distinct (map fst (os_walk [] tree))"
    and "i < length (trace (generate_site g e tree))"
    and "j < length (trace (generate_site g e tree))"
    and "file_step g dir (trace (generate_site g e tree) ! i)"
    and "index_step g dir (trace (generate_site g e tree) ! j)"
  shows "i < j"
proof (rule ccontr)
  assume "\<not> i < j"
  moreover have "i \<noteq> j"
    using assms(4,5) not_both_steps by blast
  ultimately have "j < i"
    by simp
  from files_before_index_nth [OF files_before_index_trace [OF assms(1)] this assms(2) assms(5)]
  show False
    using assms(4) by simp
qed

lemma example_visited:
  "visited example_generator (os_walk [] example_tree) =
     [([], example_tree),
      ([''guide''], [File ''setup.md'' (Inr [0x68]),
                     File ''bad.txt'' (Inl ''Permission denied''),
                     File ''notes.png'' (Inr [])])]"
  unfolding example_walk
  by (simp add: visited_def excluded_def name_of_def startswith_def)

lemma example_completes:
  "raised (generate_site example_generator example_env example_tree) = None"
  using example_ok by (rule generate_site_completes)

lemma example_sorted:
  "sort_key node_name example_tree = 
     [Dir ''.git'' [File ''config.md'' (Inr [0x68])], File ''README.md'' (Inr [0x68, 0x69]),
      Dir ''guide''
        [File ''setup.md'' (Inr [0x68]),
         File ''bad.txt'' (Inl ''Permission denied''),
         File ''notes.png'' (Inr [])]]"
  "sort_key node_name [File ''setup.md'' (Inr [0x68]),
                     File ''bad.txt'' (Inl ''Permission denied''),
                     File ''notes.png'' (Inr [])]
   = [File ''bad.txt'' (Inl ''Permission denied''), File ''notes.png'' (Inr []), File ''setup.md'' (Inr [0x68])]"
  by (simp_all add: example_tree_def less_eq_char_def less_char_def)

lemma example_names_more:
  "stem ''README.md'' = ''README''" "suffix_of ''README.md'' = ''.md''"
  "suffix_of ''setup.md'' = ''.md''" "stem ''bad.txt'' = ''bad''" "suffix_of ''bad.txt'' = ''.txt''"
  "suffix_of ''notes.png'' = ''.png''"
  "\<not> hidden ''README.md''" "eligible ''README.md''" "\<not> eligible ''notes.png''"
  by (simp_all add: stem_def suffix_of_def rfind_def hidden_def startswith_def eligible_def
        endswith_def lower_def lower_char_def ascii_uppercase_def ascii_lowercase_def)

lemma example_convert [simp]:
  "convert example_env exts (read_text [0x68, 0x69]) = Inr ''<p>text</p>''"
  "convert example_env exts (read_text [0x68]) = Inr ''<p>text</p>''"
  by (simp_all add: example_env_def read_text_def utf8_ignore.simps)

lemma example_root_files:
  "concat (map (file_events example_generator example_env []) example_tree) =
     [Write [''docs'', ''README.html'']
      \<lparr>title = ''README'', breadcrumb = [Crumb ''./index.html'' ''Home''],
         content = Converted ''<p>text</p>'',
         timestamp = ''2024-01-01 00:00:00'', home_path = ''./index.html''\<rparr>,
     Print (File_done [''README.md''])]"
  by (simp add: example_tree_def file_events_def example_names_more process_markdown_readable
        name_of_def create_breadcrumb_map get_relative_path_to_root_def)

lemma example_guide_files:
  "concat (map (file_events example_generator example_env [''guide''])
     [File ''setup.md'' (Inr [0x68]), File ''bad.txt'' (Inl ''Permission denied''),
      File ''notes.png'' (Inr [])]) =
     [Write [''docs'', ''guide'', ''setup.html'']
      \<lparr>title = ''setup'',
         breadcrumb = [Crumb ''../index.html'' ''Home'', Crumb ''index.html'' ''guide''],
         content = Converted ''<p>text</p>'',
         timestamp = ''2024-01-01 00:00:00'', home_path = ''../index.html''\<rparr>,
     Print (File_done [''guide'', ''setup.md'']),
     Print (File_error [''guide'', ''bad.txt''] ''Permission denied'')]"
  by (simp add: file_events_def example_names example_names_more process_markdown_readable
        name_of_def create_breadcrumb_map get_relative_path_to_root_def)
     (simp add: process_markdown_def)

lemma example_labels:
  "upper ''.md'' = ''.MD''" "upper ''.txt'' = ''.TXT''" "lower ''.md'' = ''.md''"
  "lower ''.txt'' = ''.txt''" "lower ''.png'' = ''.png''"
  "title_case (replace_char CHR ''-'' CHR '' '' (replace_char CHR ''_'' CHR '' '' ''Documentation''))
     = ''Documentation''"
  "title_case (replace_char CHR ''-'' CHR '' '' (replace_char CHR ''_'' CHR '' '' ''guide''))
     = ''Guide''"
  by (simp_all add: upper_def lower_def upper_char_def lower_char_def title_case_def
        replace_char_def is_lower_def is_upper_def ascii_lowercase_def ascii_uppercase_def)

lemma example_root_listing:
  "create_directory_listing example_generator example_env example_tree [] =
      \<lparr>title = ''Home'', breadcrumb = [Crumb ''./index.html'' ''Home''],
         content =
           Listing ''Documentation''
            [Card ''guide'' ''guide/index.html'' Directory_label]
            [Card ''README.md'' ''README.html'' (File_label ''.MD'')],
         timestamp = ''2024-01-01 00:00:00'', home_path = ''./index.html''\<rparr>"
  unfolding create_directory_listing_def example_sorted
  by (simp add: listing_step_def name_of_def startswith_def example_names_more example_labels
        create_breadcrumb_map get_relative_path_to_root_def)

lemma example_guide_listing:
  "create_directory_listing example_generator example_env
     [File ''setup.md'' (Inr [0x68]), File ''bad.txt'' (Inl ''Permission denied''),
      File ''notes.png'' (Inr [])] [''guide''] =
      \<lparr>title = ''guide'',
         breadcrumb = [Crumb ''../index.html'' ''Home'', Crumb ''index.html'' ''guide''],
         content =
           Listing ''Guide'' []
            [Card ''bad.txt'' ''bad.html'' (File_label ''.TXT''),
             Card ''setup.md'' ''setup.html'' (File_label ''.MD'')],
         timestamp = ''2024-01-01 00:00:00'', home_path = ''../index.html''\<rparr>"
  unfolding create_directory_listing_def example_sorted
  by (simp add: listing_step_def name_of_def startswith_def example_names example_names_more
        example_labels create_breadcrumb_map get_relative_path_to_root_def)

lemma example_root_events:
  "dir_events example_generator example_env ([], example_tree) =
    [Makedirs [''docs''],
     Write [''docs'', ''README.html'']
      \<lparr>title = ''README'', breadcrumb = [Crumb ''./index.html'' ''Home''],
         content = Converted ''<p>text</p>'',
         timestamp = ''2024-01-01 00:00:00'', home_path = ''./index.html''\<rparr>,
     Print (File_done [''README.md'']),
     Write [''docs'', ''index.html'']
      \<lparr>title = ''Home'', breadcrumb = [Crumb ''./index.html'' ''Home''],
         content =
           Listing ''Documentation''
            [Card ''guide'' ''guide/index.html'' Directory_label]
            [Card ''README.md'' ''README.html'' (File_label ''.MD'')],
         timestamp = ''2024-01-01 00:00:00'', home_path = ''./index.html''\<rparr>,
     Print (Dir_done [])]"
  by (simp only: dir_events_def prod.case example_root_files)
     (simp add: index_events_def example_root_listing)

lemma example_guide_events:
  "dir_events example_generator example_env
     ([''guide''], [File ''setup.md'' (Inr [0x68]), File ''bad.txt'' (Inl ''Permission denied''),
      File ''notes.png'' (Inr [])]) =
    [Makedirs [''docs'', ''guide''],
     Write [''docs'', ''guide'', ''setup.html'']
      \<lparr>title = ''setup'',
         breadcrumb = [Crumb ''../index.html'' ''Home'', Crumb ''index.html'' ''guide''],
         content = Converted ''<p>text</p>'',
         timestamp = ''2024-01-01 00:00:00'', home_path = ''../index.html''\<rparr>,
     Print (File_done [''guide'', ''setup.md'']),
     Print (File_error [''guide'', ''bad.txt''] ''Permission denied''),
     Write [''docs'', ''guide'', ''index.html'']
      \<lparr>title = ''guide'',
         breadcrumb = [Crumb ''../index.html'' ''Home'', Crumb ''index.html'' ''guide''],
         content =
           Listing ''Guide'' []
            [Card ''bad.txt'' ''bad.html'' (File_label ''.TXT''),
             Card ''setup.md'' ''setup.html'' (File_label ''.MD'')],
         timestamp = ''2024-01-01 00:00:00'', home_path = ''../index.html''\<rparr>,
     Print (Dir_done [''guide''])]"
  by (simp only: dir_events_def prod.case example_guide_files)
     (simp add: index_events_def example_guide_listing)

lemma example_trace:
  "trace (generate_site example_generator example_env example_tree) =
    [Print Starting, Rmtree [''docs''], Mkdir [''docs''],
     Touch [''docs'', ''.nojekyll''], Makedirs [''docs''],
     Write [''docs'', ''README.html'']
      \<lparr>title = ''README'', breadcrumb = [Crumb ''./index.html'' ''Home''],
         content = Converted ''<p>text</p>'',
         timestamp = ''2024-01-01 00:00:00'', home_path = ''./index.html''\<rparr>,
     Print (File_done [''README.md'']),
     Write [''docs'', ''index.html'']
      \<lparr>title = ''Home'', breadcrumb = [Crumb ''./index.html'' ''Home''],
         content =
           Listing ''Documentation''
            [Card ''guide'' ''guide/index.html'' Directory_label]
            [Card ''README.md'' ''README.html'' (File_label ''.MD'')],
         timestamp = ''2024-01-01 00:00:00'', home_path = ''./index.html''\<rparr>,
     Print (Dir_done []), Makedirs [''docs'', ''guide''],
     Write [''docs'', ''guide'', ''setup.html'']
      \<lparr>title = ''setup'',
         breadcrumb = [Crumb ''../index.html'' ''Home'', Crumb ''index.html'' ''guide''],
         content = Converted ''<p>text</p>'',
         timestamp = ''2024-01-01 00:00:00'', home_path = ''../index.html''\<rparr>,
     Print (File_done [''guide'', ''setup.md'']),
     Print (File_error [''guide'', ''bad.txt''] ''Permission denied''),
     Write [''docs'', ''guide'', ''index.html'']
      \<lparr>title = ''guide'',
         breadcrumb = [Crumb ''../index.html'' ''Home'', Crumb ''index.html'' ''guide''],
         content =
           Listing ''Guide'' []
            [Card ''bad.txt'' ''bad.html'' (File_label ''.TXT''),
             Card ''setup.md'' ''setup.html'' (File_label ''.MD'')],
         timestamp = ''2024-01-01 00:00:00'', home_path = ''../index.html''\<rparr>,
     Print (Dir_done [''guide'']), Print (Finished [''docs''])]"
  unfolding completed_run_trace [OF example_completes] example_visited
  by (simp add: example_root_events example_guide_events)

theorem index_written_after_files_witness:
  "distinct (map fst (os_walk [] example_tree))
   \<and> 12 < length (trace (generate_site example_generator example_env example_tree))
   \<and> 13 < length (trace (generate_site example_generator example_env example_tree))
   \<and> trace (generate_site example_generator example_env example_tree) ! 12
       = Print (File_error [''guide'', ''bad.txt''] ''Permission denied'')
   \<and> file_step example_generator [''guide'']
        (trace (generate_site example_generator example_env example_tree) ! 12)
   \<and> index_step example_generator [''guide'']
        (trace (generate_site example_generator example_env example_tree) ! 13)
   \<and> (12::nat) < 13"
proof -
  have 1: "distinct (map fst (os_walk [] example_tree))"
    unfolding example_walk by simp
  have 2: "12 < length (trace (generate_site example_generator example_env example_tree))"
    and 3: "13 < length (trace (generate_site example_generator example_env example_tree))"
    unfolding example_trace by simp_all
  have 4: "trace (generate_site example_generator example_env example_tree) ! 12
       = Print (File_error [''guide'', ''bad.txt''] ''Permission denied'')"
    unfolding example_trace by simp
  have 5: "file_step example_generator [''guide'']
        (trace (generate_site example_generator example_env example_tree) ! 12)"
    unfolding 4 by (simp add: file_step_def)
  have 6: "index_step example_generator [''guide'']
        (trace (generate_site example_generator example_env example_tree) ! 13)"
    unfolding example_trace by (simp add: index_step_def)
  from index_written_after_files [OF 1 2 3 5 6] 1 2 3 4 5 6 show ?thesis
    by blast
qed

section \<open>Names of pages\<close>







section \<open>Segments of links\<close>






section \<open>Output paths and links\<close>












section \<open>One page per source\<close>

lemma page_sources_Cons:
  "page_sources (item # entries) = page_sources [item] @ page_sources entries"
  by (simp add: page_sources_def)

lemma created_files_file_events_source:
  "created_files (file_events g e dir item) = []
   \<or> (\<exists>name. page_sources [item] = [name]
         \<and> created_files (file_events g e dir item) = [output_dir g @ dir @ [stem name @ ''.html'']])"
  by (cases item)
     (auto simp: file_events_def page_sources_def split: sum.splits option.splits)

lemma created_files_entries_sources:
  "set (created_files (concat (map (file_events g e dir) entries)))
     \<subseteq> (\<lambda>name. output_dir g @ dir @ [stem name @ ''.html'']) ` set (page_sources entries)"
proof (induction entries)
  case Nil
  then show ?case by simp
next
  case (Cons item entries)
  from created_files_file_events_source [of g e dir item] Cons.IH show ?case
    by (subst page_sources_Cons) auto
qed

lemma distinct_created_files_entries:
  "distinct (map stem (page_sources entries))
     \<Longrightarrow> distinct (created_files (concat (map (file_events g e dir) entries)))"
proof (induction entries)
  case Nil
  then show ?case by simp
next
  case (Cons item entries)
  from Cons.prems have split: "distinct (map stem (page_sources [item]))"
    "distinct (map stem (page_sources entries))"
    "set (map stem (page_sources [item])) \<inter> set (map stem (page_sources entries)) = {}"
    by (subst (asm) page_sources_Cons, simp)+
  from created_files_file_events_source [of g e dir item] show ?case
  proof
    assume "created_files (file_events g e dir item) = []"
    with Cons.IH [OF split(2)] show ?thesis by simp
  next
    assume "\<exists>name. page_sources [item] = [name]
         \<and> created_files (file_events g e dir item) = [output_dir g @ dir @ [stem name @ ''.html'']]"
    then obtain name where name: "page_sources [item] = [name]"
      "created_files (file_events g e dir item) = [output_dir g @ dir @ [stem name @ ''.html'']]"
      by blast
    have "output_dir g @ dir @ [stem name @ ''.html'']
            \<notin> set (created_files (concat (map (file_events g e dir) entries)))"
    proof
      assume "output_dir g @ dir @ [stem name @ ''.html'']
            \<in> set (created_files (concat (map (file_events g e dir) entries)))"
      with created_files_entries_sources [of g e dir entries]
      obtain other where other: "other \<in> set (page_sources entries)" "stem other = stem name"
        by auto
      from other(1) have "stem other \<in> stem ` set (page_sources entries)"
        by (rule imageI)
      then have "stem name \<in> set (map stem (page_sources entries))"
        unfolding other(2) by simp
      moreover have "stem name \<in> set (map stem (page_sources [item]))"
        by (simp add: name(1))
      ultimately show False
        using split(3) by blast
    qed
    with Cons.IH [OF split(2)] name(2) show ?thesis by simp
  qed
qed

lemma distinct_created_files_dir_events:
  assumes "distinct (map stem (page_sources entries))"
    and "''index'' \<notin> set (map stem (page_sources entries))"
  shows "distinct (created_files (dir_events g e (dir, entries)))"
proof -
  let ?files = "created_files (concat (map (file_events g e dir) entries))"
  have "output_dir g @ dir @ [''index.html''] \<notin> set ?files"
  proof
    assume "output_dir g @ dir @ [''index.html''] \<in> set ?files"
    with created_files_entries_sources [of g e dir entries]
    obtain name where "name \<in> set (page_sources entries)" "stem name @ ''.html'' = ''index.html''"
      by auto
    then have "''index'' \<in> set (map stem (page_sources entries))"
      by force
    with assms(2) show False ..
  qed
  moreover have "created_files (index_events g e dir entries) = []
      \<or> created_files (index_events g e dir entries) = [output_dir g @ dir @ [''index.html'']]"
    by (simp add: index_events_def split: option.splits)
  ultimately show ?thesis
    using distinct_created_files_entries [OF assms(1), of g e dir]
    by (auto simp: dir_events_def)
qed

lemma distinct_created_files_blocks:
  assumes "distinct (map fst seen)"
    and "\<forall>(dir, entries) \<in> set seen.
           distinct (map stem (page_sources entries))
           \<and> ''index'' \<notin> set (map stem (page_sources entries))"
  shows "distinct (created_files (concat (map (dir_events g e) seen)))"
  using assms
proof (induction seen)
  case Nil
  then show ?case by simp
next
  case (Cons triple seen)
  obtain dir entries where triple: "triple = (dir, entries)"
    by (cases triple)
  from Cons.prems have fresh: "dir \<notin> fst ` set seen" and rest: "distinct (map fst seen)"
    and here: "distinct (map stem (page_sources entries))"
      "''index'' \<notin> set (map stem (page_sources entries))"
    and there: "\<forall>(dir, entries) \<in> set seen.
           distinct (map stem (page_sources entries))
           \<and> ''index'' \<notin> set (map stem (page_sources entries))"
    by (simp_all add: triple)
  have "set (created_files (dir_events g e (dir, entries)))
          \<inter> set (created_files (concat (map (dir_events g e) seen))) = {}"
  proof (rule ccontr)
    assume "set (created_files (dir_events g e (dir, entries)))
          \<inter> set (created_files (concat (map (dir_events g e) seen))) \<noteq> {}"
    then obtain p dir' entries' where p: "p \<in> set (created_files (dir_events g e (dir, entries)))"
      and seen: "(dir', entries') \<in> set seen"
      and p': "p \<in> set (created_files (dir_events g e (dir', entries')))"
      by (auto simp: created_files_concat)
    from created_files_dir_events_page [OF p] created_files_dir_events_page [OF p']
    have "dir = dir'"
      by auto
    with fresh seen show False
      by force
  qed
  with distinct_created_files_dir_events [OF here, of g e dir] Cons.IH [OF rest there]
  show ?case
    by (simp add: triple)
qed

lemma distinct_created_files_trace:
  assumes "distinct (map fst (os_walk [] tree))" and "no_shared_pages g tree"
  shows "distinct (created_files (trace (generate_site g e tree)))"
proof -
  from generate_site_trace [of g tree e] obtain seen
    where seen: "prefix seen (visited g (os_walk [] tree))"
      and tr: "trace (generate_site g e tree) =
         [Print Starting, Rmtree (output_dir g), Mkdir (output_dir g),
          Touch (output_dir g @ [''.nojekyll''])]
         @ concat (map (dir_events g e) seen)
         @ (if raised (generate_site g e tree) = None then [Print (Finished (output_dir g))] else [])"
    by (elim exE conjE)
  have "distinct (map fst (visited g (os_walk [] tree)))"
    unfolding visited_def using assms(1) by (rule distinct_map_filter)
  moreover from seen obtain rest where split: "visited g (os_walk [] tree) = seen @ rest"
    by (auto simp: prefix_def)
  ultimately have "distinct (map fst seen)"
    by simp
  moreover have "\<forall>(dir, entries) \<in> set seen.
           distinct (map stem (page_sources entries))
           \<and> ''index'' \<notin> set (map stem (page_sources entries))"
  proof (intro ballI, clarify)
    fix dir entries assume "(dir, entries) \<in> set seen"
    then have "(dir, entries) \<in> set (visited g (os_walk [] tree))"
      unfolding split by simp
    then have "(dir, entries) \<in> set (os_walk [] tree)" "\<not> excluded g dir"
      by (simp_all add: visited_def del: os_walk.simps)
    with assms(2) show "distinct (map stem (page_sources entries))
           \<and> ''index'' \<notin> set (map stem (page_sources entries))"
      unfolding no_shared_pages_def by blast
  qed
  ultimately have blocks: "distinct (created_files (concat (map (dir_events g e) seen)))"
    by (rule distinct_created_files_blocks)
  have "output_dir g @ [''.nojekyll''] \<notin> set (created_files (concat (map (dir_events g e) seen)))"
  proof
    assume "output_dir g @ [''.nojekyll''] \<in> set (created_files (concat (map (dir_events g e) seen)))"
    then obtain dir entries where "output_dir g @ [''.nojekyll'']
        \<in> set (created_files (dir_events g e (dir, entries)))"
      by (auto simp: created_files_concat)
    from created_files_dir_events_page [OF this] show False
      by (auto simp: endswith_def append_eq_Cons_conv)
  qed
  with blocks show ?thesis
    unfolding tr by simp
qed

lemma visited_pages_in_trace:
  assumes "raised (generate_site g e tree) = None"
    and "(dir, entries) \<in> set (os_walk [] tree)" and "\<not> excluded g dir"
  shows "write_error e (output_dir g @ dir @ [''index.html'']) = None
           \<Longrightarrow> Write (output_dir g @ dir @ [''index.html''])
                 (create_directory_listing g e entries dir) \<in> set (trace (generate_site g e tree))"
    and "File name data \<in> set entries \<Longrightarrow> \<not> hidden name \<Longrightarrow> eligible name
           \<Longrightarrow> process_markdown g e (source_dir g @ dir @ [name]) data (dir @ [name]) = Inr pg
           \<Longrightarrow> write_error e (output_dir g @ dir @ [stem name @ ''.html'']) = None
           \<Longrightarrow> Write (output_dir g @ dir @ [stem name @ ''.html'']) pg
                 \<in> set (trace (generate_site g e tree))"
proof -
  have events: "set (dir_events g e (dir, entries)) \<subseteq> set (trace (generate_site g e tree))"
    using assms by (rule completed_run_dir_events)
  show "Write (output_dir g @ dir @ [''index.html''])
                 (create_directory_listing g e entries dir) \<in> set (trace (generate_site g e tree))"
    if "write_error e (output_dir g @ dir @ [''index.html'']) = None"
    using that events index_events_in_dir_events [of g e dir entries]
    by (auto simp: index_events_def)
  show "Write (output_dir g @ dir @ [stem name @ ''.html'']) pg
                 \<in> set (trace (generate_site g e tree))"
    if "File name data \<in> set entries" "\<not> hidden name" "eligible name"
      "process_markdown g e (source_dir g @ dir @ [name]) data (dir @ [name]) = Inr pg"
      "write_error e (output_dir g @ dir @ [stem name @ ''.html'']) = None"
  proof -
    have "Write (output_dir g @ dir @ [stem name @ ''.html'']) pg
            \<in> set (file_events g e dir (File name data))"
      using that(2-5) by (simp add: file_events_def)
    with events file_events_in_dir_events [OF that(1), of g e dir] show ?thesis
      by blast
  qed
qed

lemma written_page_source:
  assumes "Write p pg \<in> set (trace (generate_site g e tree))"
  shows "\<exists>(dir, entries) \<in> set (os_walk [] tree). \<not> excluded g dir
           \<and> (p = output_dir g @ dir @ [''index.html'']
                \<or> (\<exists>name \<in> set (page_sources entries).
                      p = output_dir g @ dir @ [stem name @ ''.html'']))"
  using assms
proof (cases rule: trace_event_origin)
  case preamble
  then show ?thesis by simp
next
  case (directory dir entries)
  have "p \<in> set (created_files (dir_events g e (dir, entries)))"
    using directory(3) by (force simp: created_files_def)
  then have "p = output_dir g @ dir @ [''index.html'']
      \<or> p \<in> set (created_files (concat (map (file_events g e dir) entries)))"
    by (auto simp: dir_events_def dest: created_files_index_events)
  with created_files_entries_sources [of g e dir entries]
  have "p = output_dir g @ dir @ [''index.html'']
                \<or> (\<exists>name \<in> set (page_sources entries).
                      p = output_dir g @ dir @ [stem name @ ''.html''])"
    by auto
  with directory(1,2) show ?thesis
    by blast
qed

text \<open>
  C1, as the code has it. In a run that no \<open>mkdir\<close> failure ends, over a tree in which the
  files that become pages have, within each visited directory, base names that differ from
  each other and from \<open>index\<close>: each visited directory whose index page can be written gets
  \<open>index.html\<close> in its mirror; each eligible file of it whose conversion and write succeed
  gets the page named by its base name and \<open>.html\<close> in that mirror; every page written is one
  of these; and no path is written twice.
\<close>

theorem one_page_per_source:
  assumes "raised (generate_site g e tree) = None"
    and "distinct (map fst (os_walk [] tree))" and "no_shared_pages g tree"
  shows "(\<forall>(dir, entries) \<in> set (os_walk [] tree). \<not> excluded g dir \<longrightarrow>
            (write_error e (output_dir g @ dir @ [''index.html'']) = None
               \<longrightarrow> Write (output_dir g @ dir @ [''index.html''])
                      (create_directory_listing g e entries dir)
                    \<in> set (trace (generate_site g e tree)))
            \<and> (\<forall>name data pg.
                  File name data \<in> set entries \<and> \<not> hidden name \<and> eligible name
                  \<and> process_markdown g e (source_dir g @ dir @ [name]) data (dir @ [name]) = Inr pg
                  \<and> write_error e (output_dir g @ dir @ [stem name @ ''.html'']) = None
                  \<longrightarrow> Write (output_dir g @ dir @ [stem name @ ''.html'']) pg
                        \<in> set (trace (generate_site g e tree))))
    \<and> (\<forall>p pg. Write p pg \<in> set (trace (generate_site g e tree)) \<longrightarrow>
          (\<exists>(dir, entries) \<in> set (os_walk [] tree). \<not> excluded g dir
              \<and> (p = output_dir g @ dir @ [''index.html'']
                  \<or> (\<exists>name \<in> set (page_sources entries).
                        p = output_dir g @ dir @ [stem name @ ''.html'']))))
    \<and> distinct (created_files (trace (generate_site g e tree)))"
proof (intro conjI)
  show "\<forall>(dir, entries) \<in> set (os_walk [] tree). \<not> excluded g dir \<longrightarrow>
            (write_error e (output_dir g @ dir @ [''index.html'']) = None
               \<longrightarrow> Write (output_dir g @ dir @ [''index.html''])
                      (create_directory_listing g e entries dir)
                    \<in> set (trace (generate_site g e tree)))
            \<and> (\<forall>name data pg.
                  File name data \<in> set entries \<and> \<not> hidden name \<and> eligible name
                  \<and> process_markdown g e (source_dir g @ dir @ [name]) data (dir @ [name]) = Inr pg
                  \<and> write_error e (output_dir g @ dir @ [stem name @ ''.html'']) = None
                  \<longrightarrow> Write (output_dir g @ dir @ [stem name @ ''.html'']) pg
                        \<in> set (trace (generate_site g e tree)))"
    using visited_pages_in_trace [OF assms(1)] by (intro ballI) blast
  show "\<forall>p pg. Write p pg \<in> set (trace (generate_site g e tree)) \<longrightarrow>
          (\<exists>(dir, entries) \<in> set (os_walk [] tree). \<not> excluded g dir
              \<and> (p = output_dir g @ dir @ [''index.html'']
                  \<or> (\<exists>name \<in> set (page_sources entries).
                        p = output_dir g @ dir @ [stem name @ ''.html''])))"
    using written_page_source by blast
  show "distinct (created_files (trace (generate_site g e tree)))"
    using assms(2,3) by (rule distinct_created_files_trace)
qed

lemma shared_page_names:
  "stem ''index.md'' = ''index''" "stem ''a.md'' = ''a''" "stem ''a.txt'' = ''a''"
  "suffix_of ''index.md'' = ''.md''" "suffix_of ''a.md'' = ''.md''" "suffix_of ''a.txt'' = ''.txt''"
  "\<not> hidden ''index.md''" "\<not> hidden ''a.md''" "\<not> hidden ''a.txt''"
  "eligible ''index.md''" "eligible ''a.md''" "eligible ''a.txt''"
  by (simp_all add: stem_def suffix_of_def rfind_def hidden_def startswith_def eligible_def
        endswith_def lower_def lower_char_def ascii_uppercase_def ascii_lowercase_def)

lemma shared_page_sorted:
  "sort_key node_name shared_page_tree =
     [File ''a.md'' (Inr [0x68]), File ''a.txt'' (Inr [0x69]), File ''index.md'' (Inr [0x68])]"
  by (simp add: shared_page_tree_def less_eq_char_def less_char_def)

lemma example_convert_more [simp]:
  "convert example_env exts (read_text [0x69]) = Inr ''<p>text</p>''"
  by (simp add: example_env_def read_text_def utf8_ignore.simps)

lemma shared_page_files:
  "concat (map (file_events example_generator example_env []) shared_page_tree) =
     [Write [''docs'', ''index.html'']
       \<lparr>title = ''index'', breadcrumb = [Crumb ''./index.html'' ''Home''],
          content = Converted ''<p>text</p>'',
          timestamp = ''2024-01-01 00:00:00'', home_path = ''./index.html''\<rparr>,
      Print (File_done [''index.md'']),
      Write [''docs'', ''a.html'']
       \<lparr>title = ''a'', breadcrumb = [Crumb ''./index.html'' ''Home''],
          content = Converted ''<p>text</p>'',
          timestamp = ''2024-01-01 00:00:00'', home_path = ''./index.html''\<rparr>,
      Print (File_done [''a.md'']),
      Write [''docs'', ''a.html'']
       \<lparr>title = ''a'', breadcrumb = [Crumb ''./index.html'' ''Home''],
          content = Converted ''<p>text</p>'',
          timestamp = ''2024-01-01 00:00:00'', home_path = ''./index.html''\<rparr>,
      Print (File_done [''a.txt''])]"
  by (simp add: shared_page_tree_def file_events_def shared_page_names process_markdown_readable
        name_of_def create_breadcrumb_map get_relative_path_to_root_def)

lemma shared_page_listing:
  "create_directory_listing example_generator example_env shared_page_tree [] =
      \<lparr>title = ''Home'', breadcrumb = [Crumb ''./index.html'' ''Home''],
         content =
           Listing ''Documentation'' []
            [Card ''a.md'' ''a.html'' (File_label ''.MD''),
             Card ''a.txt'' ''a.html'' (File_label ''.TXT''),
             Card ''index.md'' ''index.html'' (File_label ''.MD'')],
         timestamp = ''2024-01-01 00:00:00'', home_path = ''./index.html''\<rparr>"
  unfolding create_directory_listing_def shared_page_sorted
  by (simp add: listing_step_def name_of_def startswith_def shared_page_names example_labels
        create_breadcrumb_map get_relative_path_to_root_def)

lemma shared_page_trace:
  "trace (generate_site example_generator example_env shared_page_tree) =
     [Print Starting, Rmtree [''docs''], Mkdir [''docs''],
      Touch [''docs'', ''.nojekyll''], Makedirs [''docs''],
      Write [''docs'', ''index.html'']
       \<lparr>title = ''index'', breadcrumb = [Crumb ''./index.html'' ''Home''],
          content = Converted ''<p>text</p>'',
          timestamp = ''2024-01-01 00:00:00'', home_path = ''./index.html''\<rparr>,
      Print (File_done [''index.md'']),
      Write [''docs'', ''a.html'']
       \<lparr>title = ''a'', breadcrumb = [Crumb ''./index.html'' ''Home''],
          content = Converted ''<p>text</p>'',
          timestamp = ''2024-01-01 00:00:00'', home_path = ''./index.html''\<rparr>,
      Print (File_done [''a.md'']),
      Write [''docs'', ''a.html'']
       \<lparr>title = ''a'', breadcrumb = [Crumb ''./index.html'' ''Home''],
          content = Converted ''<p>text</p>'',
          timestamp = ''2024-01-01 00:00:00'', home_path = ''./index.html''\<rparr>,
      Print (File_done [''a.txt'']),
      Write [''docs'', ''index.html'']
       \<lparr>title = ''Home'', breadcrumb = [Crumb ''./index.html'' ''Home''],
          content =
            Listing ''Documentation'' []
             [Card ''a.md'' ''a.html'' (File_label ''.MD''),
              Card ''a.txt'' ''a.html'' (File_label ''.TXT''),
              Card ''index.md'' ''index.html'' (File_label ''.MD'')],
          timestamp = ''2024-01-01 00:00:00'', home_path = ''./index.html''\<rparr>,
      Print (Dir_done []), Print (Finished [''docs''])]"
proof -
  have walk: "os_walk [] shared_page_tree = [([], shared_page_tree)]"
    by (simp add: shared_page_tree_def)
  have "dirs_not_named_as_pages shared_page_tree"
    unfolding dirs_not_named_as_pages_def walk by simp
  then have "raised (generate_site example_generator example_env shared_page_tree) = None"
    by (rule generate_site_completes) simp
  from completed_run_trace [OF this]
  have "trace (generate_site example_generator example_env shared_page_tree) =
      [Print Starting, Rmtree [''docs''], Mkdir [''docs''], Touch [''docs'', ''.nojekyll'']]
      @ dir_events example_generator example_env ([], shared_page_tree)
      @ [Print (Finished [''docs''])]"
    unfolding walk by (simp add: visited_def excluded_def)
  moreover have "dir_events example_generator example_env ([], shared_page_tree) =
      Makedirs [''docs''] # concat (map (file_events example_generator example_env []) shared_page_tree)
      @ [Write [''docs'', ''index.html'']
           (create_directory_listing example_generator example_env shared_page_tree []),
         Print (Dir_done [])]"
    by (simp only: dir_events_def prod.case) (simp add: index_events_def)
  ultimately show ?thesis
    by (simp only: shared_page_files shared_page_listing) simp
qed

text \<open>
  C1 as worded fails: \<open>index.md\<close> is written to \<open>docs/index.html\<close>, the path of the
  index page of its directory, which is written over it; \<open>a.md\<close> and \<open>a.txt\<close> are both
  written to \<open>docs/a.html\<close>.
\<close>

theorem pages_share_paths_counterexample:

  "trace (generate_site example_generator example_env shared_page_tree) =
     [Print Starting, Rmtree [''docs''], Mkdir [''docs''],
      Touch [''docs'', ''.nojekyll''], Makedirs [''docs''],
      Write [''docs'', ''index.html'']
       \<lparr>title = ''index'', breadcrumb = [Crumb ''./index.html'' ''Home''],
          content = Converted ''<p>text</p>'',
          timestamp = ''2024-01-01 00:00:00'', home_path = ''./index.html''\<rparr>,
      Print (File_done [''index.md'']),
      Write [''docs'', ''a.html'']
       \<lparr>title = ''a'', breadcrumb = [Crumb ''./index.html'' ''Home''],
          content = Converted ''<p>text</p>'',
          timestamp = ''2024-01-01 00:00:00'', home_path = ''./index.html''\<rparr>,
      Print (File_done [''a.md'']),
      Write [''docs'', ''a.html'']
       \<lparr>title = ''a'', breadcrumb = [Crumb ''./index.html'' ''Home''],
          content = Converted ''<p>text</p>'',
          timestamp = ''2024-01-01 00:00:00'', home_path = ''./index.html''\<rparr>,
      Print (File_done [''a.txt'']),
      Write [''docs'', ''index.html'']
       \<lparr>title = ''Home'', breadcrumb = [Crumb ''./index.html'' ''Home''],
          content =
            Listing ''Documentation'' []
             [Card ''a.md'' ''a.html'' (File_label ''.MD''),
              Card ''a.txt'' ''a.html'' (File_label ''.TXT''),
              Card ''index.md'' ''index.html'' (File_label ''.MD'')],
          timestamp = ''2024-01-01 00:00:00'', home_path = ''./index.html''\<rparr>,
      Print (Dir_done []), Print (Finished [''docs''])]
   \<and> created_files (trace (generate_site example_generator example_env shared_page_tree))
     = [[''docs'', ''.nojekyll''], [''docs'', ''index.html''], [''docs'', ''a.html''],
        [''docs'', ''a.html''], [''docs'', ''index.html'']]"
  unfolding shared_page_trace by simp

lemma example_no_shared_pages: "no_shared_pages example_generator example_tree"
proof -
  have "page_sources example_tree = [''README.md'']"
    by (simp add: page_sources_def example_tree_def example_names_more)
  moreover have "page_sources [File ''setup.md'' (Inr [0x68]),
      File ''bad.txt'' (Inl ''Permission denied''), File ''notes.png'' (Inr [])]
      = [''setup.md'', ''bad.txt'']"
    by (simp add: page_sources_def example_names example_names_more)
  moreover have "excluded example_generator [''.git'']"
    by (simp add: excluded_def startswith_def)
  ultimately show ?thesis
    unfolding no_shared_pages_def example_walk
    by (simp add: example_names example_names_more)
qed

theorem one_page_per_source_witness:
  "raised (generate_site example_generator example_env example_tree) = None
   \<and> distinct (map fst (os_walk [] example_tree))
   \<and> no_shared_pages example_generator example_tree
   \<and> Write [''docs'', ''guide'', ''setup.html'']
        \<lparr>title = ''setup'',
           breadcrumb = [Crumb ''../index.html'' ''Home'', Crumb ''index.html'' ''guide''],
           content = Converted ''<p>text</p>'', timestamp = ''2024-01-01 00:00:00'',
           home_path = ''../index.html''\<rparr>
        \<in> set (trace (generate_site example_generator example_env example_tree))
   \<and> distinct (created_files (trace (generate_site example_generator example_env example_tree)))"
proof -
  let ?entries = "[File ''setup.md'' (Inr [0x68]), File ''bad.txt'' (Inl ''Permission denied''),
                  File ''notes.png'' (Inr [])]"
  let ?pg = "\<lparr>title = ''setup'',
           breadcrumb = [Crumb ''../index.html'' ''Home'', Crumb ''index.html'' ''guide''],
           content = Converted ''<p>text</p>'', timestamp = ''2024-01-01 00:00:00'',
           home_path = ''../index.html''\<rparr>"
  have walk: "distinct (map fst (os_walk [] example_tree))"
    unfolding example_walk by simp
  note inst = one_page_per_source [OF example_completes walk example_no_shared_pages]
  have guide: "([''guide''], ?entries) \<in> set (os_walk [] example_tree)"
    unfolding example_walk by simp
  from inst guide example_not_excluded
  have "\<forall>name data pg.
          File name data \<in> set ?entries \<and> \<not> hidden name \<and> eligible name
          \<and> process_markdown example_generator example_env
                (source_dir example_generator @ [''guide''] @ [name]) data ([''guide''] @ [name]) = Inr pg
          \<and> write_error example_env (output_dir example_generator @ [''guide''] @ [stem name @ ''.html'']) = None
          \<longrightarrow> Write (output_dir example_generator @ [''guide''] @ [stem name @ ''.html'']) pg
                \<in> set (trace (generate_site example_generator example_env example_tree))"
    by blast
  then have "File ''setup.md'' (Inr [0x68]) \<in> set ?entries \<and> \<not> hidden ''setup.md'' \<and> eligible ''setup.md''
          \<and> process_markdown example_generator example_env
                (source_dir example_generator @ [''guide''] @ [''setup.md'']) (Inr [0x68]) ([''guide''] @ [''setup.md'']) = Inr ?pg
          \<and> write_error example_env (output_dir example_generator @ [''guide''] @ [stem ''setup.md'' @ ''.html'']) = None
          \<longrightarrow> Write (output_dir example_generator @ [''guide''] @ [stem ''setup.md'' @ ''.html'']) ?pg
                \<in> set (trace (generate_site example_generator example_env example_tree))"
    by blast
  then have page: "Write [''docs'', ''guide'', ''setup.html''] ?pg
                \<in> set (trace (generate_site example_generator example_env example_tree))"
    using example_setup_page by (simp add: example_names)
  from inst have "distinct (created_files (trace (generate_site example_generator example_env example_tree)))"
    by blast
  with example_completes walk example_no_shared_pages page show ?thesis
    by blast
qed

end
